theory Spec2Isabelle
  imports Main "HOL-Library.Char_ord" "HOL-Library.List_Lexorder" "HOL-Library.Multiset"
begin

section \<open>Exceptions\<close>

text \<open>
  Every exception the modelled code can raise is a value.  \<open>Die\<close> is \<open>tty.die\<close>
  (a message followed by process exit, i.e. \<open>SystemExit\<close>, which is not an
  \<open>Exception\<close>); \<open>SpackError\<close> stands for any other subclass of
  \<open>spack.error.SpackError\<close>; \<open>OtherError\<close> for an exception of external code
  that is neither.
\<close>

datatype error =
    UnknownPackageError string
  | FailedConstructorError string string
  | InvalidModuleNameError string
  | SpackError string
  | Die string
  | KeyError
  | OSError string
  | TypeError string
  | AttributeError string
  | OtherError string

text \<open>\<open>isinstance(e, spack.error.SpackError)\<close>: what \<open>except SpackError\<close> catches.\<close>

fun is_SpackError :: "error \<Rightarrow> bool" where
  "is_SpackError (UnknownPackageError _) = True"
| "is_SpackError (FailedConstructorError _ _) = True"
| "is_SpackError (InvalidModuleNameError _) = True"
| "is_SpackError (SpackError _) = True"
| "is_SpackError _ = False"

section \<open>llnl.util.lang: key_ordering and HashableMap\<close>

text \<open>
  The methods \<open>key_ordering\<close> installs on a class.  The second argument of a
  comparison is any Python value, of which only \<open>None\<close> and instances of the class
  matter: it is an option.  The test \<open>o is not None\<close> comes first, so
  \<open>o._cmp_key()\<close> is never called on \<open>None\<close>.
\<close>

definition ko_eq :: "('a \<Rightarrow> 'k) \<Rightarrow> 'a \<Rightarrow> 'a option \<Rightarrow> bool" where
  "ko_eq cmp_key s ob = (case ob of None \<Rightarrow> False | Some ob' \<Rightarrow> cmp_key s = cmp_key ob')"

definition ko_lt :: "('a \<Rightarrow> 'k::ord) \<Rightarrow> 'a \<Rightarrow> 'a option \<Rightarrow> bool" where
  "ko_lt cmp_key s ob = (case ob of None \<Rightarrow> False | Some ob' \<Rightarrow> cmp_key s < cmp_key ob')"

definition ko_le :: "('a \<Rightarrow> 'k::ord) \<Rightarrow> 'a \<Rightarrow> 'a option \<Rightarrow> bool" where
  "ko_le cmp_key s ob = (case ob of None \<Rightarrow> False | Some ob' \<Rightarrow> cmp_key s \<le> cmp_key ob')"

definition ko_ne :: "('a \<Rightarrow> 'k) \<Rightarrow> 'a \<Rightarrow> 'a option \<Rightarrow> bool" where
  "ko_ne cmp_key s ob = (case ob of None \<Rightarrow> True | Some ob' \<Rightarrow> cmp_key s \<noteq> cmp_key ob')"

definition ko_gt :: "('a \<Rightarrow> 'k::ord) \<Rightarrow> 'a \<Rightarrow> 'a option \<Rightarrow> bool" where
  "ko_gt cmp_key s ob = (case ob of None \<Rightarrow> True | Some ob' \<Rightarrow> cmp_key s > cmp_key ob')"

definition ko_ge :: "('a \<Rightarrow> 'k::ord) \<Rightarrow> 'a \<Rightarrow> 'a option \<Rightarrow> bool" where
  "ko_ge cmp_key s ob = (case ob of None \<Rightarrow> True | Some ob' \<Rightarrow> cmp_key s \<ge> cmp_key ob')"

definition ko_hash :: "('k \<Rightarrow> int) \<Rightarrow> ('a \<Rightarrow> 'k) \<Rightarrow> 'a \<Rightarrow> int" where
  "ko_hash hash cmp_key s = hash (cmp_key s)"

record ('a, 'k) rich_comparison =
  eq_method :: "'a \<Rightarrow> 'a option \<Rightarrow> bool"
  lt_method :: "'a \<Rightarrow> 'a option \<Rightarrow> bool"
  le_method :: "'a \<Rightarrow> 'a option \<Rightarrow> bool"
  ne_method :: "'a \<Rightarrow> 'a option \<Rightarrow> bool"
  gt_method :: "'a \<Rightarrow> 'a option \<Rightarrow> bool"
  ge_method :: "'a \<Rightarrow> 'a option \<Rightarrow> bool"
  hash_method :: "'a \<Rightarrow> int"

text \<open>
  \<open>key_ordering(cls)\<close>.  The class is given by its \<open>_cmp_key\<close> method, \<open>None\<close>
  when \<open>has_method(cls, '_cmp_key')\<close> is false; \<open>hash\<close> is Python's built-in
  \<open>hash\<close> on the values \<open>_cmp_key\<close> returns.
\<close>

definition key_ordering ::
  "('k::ord \<Rightarrow> int) \<Rightarrow> ('a \<Rightarrow> 'k) option \<Rightarrow> error + ('a, 'k) rich_comparison" where
  "key_ordering hash cls =
     (case cls of
        None \<Rightarrow> Inl (TypeError ''doesn't define _cmp_key().'')
      | Some cmp_key \<Rightarrow>
          Inr \<lparr> eq_method = ko_eq cmp_key, lt_method = ko_lt cmp_key, le_method = ko_le cmp_key,
                ne_method = ko_ne cmp_key, gt_method = ko_gt cmp_key, ge_method = ko_ge cmp_key,
                hash_method = ko_hash hash cmp_key \<rparr>)"

text \<open>
  \<open>HashableMap\<close>: a dict (here the list of its items) whose \<open>_cmp_key\<close> is
  \<open>tuple(sorted(self.values()))\<close>.
\<close>

definition HashableMap_cmp_key :: "('key \<times> 'v::linorder) list \<Rightarrow> 'v list" where
  "HashableMap_cmp_key self = sort (map snd self)"

section \<open>Identities (spack.spec.Spec)\<close>

text \<open>
  Modelled from the spec: \<open>spack.spec.Spec\<close> is not among the sources.  An identity
  has a name, a \<open>virtual\<close> flag and further resolved attributes (versions, variants,
  ...), here one value of any type; it is a \<open>key_ordering\<close> class whose equality and hash
  are defined over its resolved attributes.
\<close>

record 'a spec =
  spec_name :: string
  spec_virtual :: bool
  spec_attrs :: 'a

definition Spec_cmp_key :: "'a spec \<Rightarrow> string \<times> 'a" where
  "Spec_cmp_key s = (spec_name s, spec_attrs s)"

section \<open>Paths and the file system\<close>

text \<open>
  Paths are absolute strings.  The file system is a table from path to node; a symbolic
  link holds its target path and is followed when it is the whole of the path looked up
  (the directories on the way to an entry are taken to be real directories).  Following
  stops after \<open>MAXSYMLINKS\<close> links, as \<open>stat\<close> does with \<open>ELOOP\<close>.
\<close>

datatype node = File | Dir | Link string

type_synonym filesystem = "(string \<times> node) list"

text \<open>\<open>os.path.join\<close> of two components, which is what \<open>join_path\<close> folds.\<close>

definition join_path :: "string \<Rightarrow> string \<Rightarrow> string" where
  "join_path a b =
     (if b \<noteq> [] \<and> hd b = CHR ''/'' then b
      else if a = [] \<or> last a = CHR ''/'' then a @ b
      else a @ ''/'' @ b)"

definition startswith :: "string \<Rightarrow> string \<Rightarrow> bool" where
  "startswith s pre = (take (length pre) s = pre)"

definition basename :: "string \<Rightarrow> string" where
  "basename p = rev (takeWhile (\<lambda>c. c \<noteq> CHR ''/'') (rev p))"

definition dirname :: "string \<Rightarrow> string" where
  "dirname p =
     (let head = rev (dropWhile (\<lambda>c. c \<noteq> CHR ''/'') (rev p))
      in if head \<noteq> [] \<and> head \<noteq> replicate (length head) (CHR ''/'')
         then rev (dropWhile (\<lambda>c. c = CHR ''/'') (rev head)) else head)"

definition MAXSYMLINKS :: nat where
  "MAXSYMLINKS = 40"

definition lstat :: "filesystem \<Rightarrow> string \<Rightarrow> node option" where
  "lstat fs p = map_of fs p"

fun stat_fuel :: "nat \<Rightarrow> filesystem \<Rightarrow> string \<Rightarrow> node option" where
  "stat_fuel 0 fs p = (case map_of fs p of Some (Link t) \<Rightarrow> None | r \<Rightarrow> r)"
| "stat_fuel (Suc n) fs p = (case map_of fs p of Some (Link t) \<Rightarrow> stat_fuel n fs t | r \<Rightarrow> r)"

definition stat :: "filesystem \<Rightarrow> string \<Rightarrow> node option" where
  "stat fs p = stat_fuel MAXSYMLINKS fs p"

definition exists :: "filesystem \<Rightarrow> string \<Rightarrow> bool" where
  "exists fs p = (stat fs p \<noteq> None)"

definition isdir :: "filesystem \<Rightarrow> string \<Rightarrow> bool" where
  "isdir fs p = (stat fs p = Some Dir)"

definition isfile :: "filesystem \<Rightarrow> string \<Rightarrow> bool" where
  "isfile fs p = (stat fs p = Some File)"

definition islink :: "filesystem \<Rightarrow> string \<Rightarrow> bool" where
  "islink fs p = (case map_of fs p of Some (Link t) \<Rightarrow> True | _ \<Rightarrow> False)"

fun realpath_fuel :: "nat \<Rightarrow> filesystem \<Rightarrow> string \<Rightarrow> string" where
  "realpath_fuel 0 fs p = p"
| "realpath_fuel (Suc n) fs p =
     (case map_of fs p of Some (Link t) \<Rightarrow> realpath_fuel n fs t | _ \<Rightarrow> p)"

definition realpath :: "filesystem \<Rightarrow> string \<Rightarrow> string" where
  "realpath fs p = realpath_fuel MAXSYMLINKS fs p"

text \<open>The name of \<open>k\<close> as an entry of directory \<open>d\<close>, if it is one.\<close>

definition entry_name :: "string \<Rightarrow> string \<Rightarrow> string option" where
  "entry_name d k =
     (let pre = (if d = [] \<or> last d = CHR ''/'' then d else d @ ''/'');
          r = drop (length pre) k
      in if startswith k pre \<and> r \<noteq> [] \<and> CHR ''/'' \<notin> set r then Some r else None)"

definition listdir :: "filesystem \<Rightarrow> string \<Rightarrow> error + string list" where
  "listdir fs d =
     (if isdir fs d then Inr (List.map_filter (entry_name d) (map fst fs))
      else Inl (OSError ''listdir''))"

section \<open>spack.packages: the package registry\<close>

text \<open>
  A package object, as far as \<open>graph_dependencies\<close> reads it: its name, the items of
  its \<open>dependencies\<close> dict and the keys of its \<open>provided\<close> dict, in iteration
  order.  An instance is a package object with its object identity.
\<close>

record 'a package =
  package_name :: string
  dependencies :: "(string \<times> 'a spec) list"
  provided :: "'a spec list"

type_synonym 'a package_instance = "nat \<times> 'a package"

text \<open>
  Calling a recipe class with an identity returns a package, raises an \<open>Exception\<close>
  (with its \<open>str\<close>), or leaves through \<open>SystemExit\<close>, which \<open>except Exception\<close>
  does not catch.
\<close>

datatype 'a ctor_result = Constructed "'a package" | Raised string | Exited string

type_synonym 'a package_class = "'a spec \<Rightarrow> 'a ctor_result"

datatype 'a attribute = Class "'a package_class" | NotAClass

datatype 'a load_result =
    Module "string \<Rightarrow> 'a attribute option"
  | ImportError string
  | LoadRaised string

text \<open>
  What the registry uses and the sources do not contain: Python's \<open>hash\<close> on
  comparison keys, \<open>spack.util.naming\<close>, \<open>os.access\<close>, \<open>imp.load_source\<close>,
  the \<open>Spec\<close> constructor applied to a name, \<open>str\<close> of an identity, and \<open>spack.virtual.ProviderIndex\<close>
  with its \<open>providers_for\<close>.
\<close>

record ('a, 'i) environment =
  py_hash :: "string \<times> 'a \<Rightarrow> int"
  validate_module_name :: "string \<Rightarrow> bool"
  mod_to_class :: "string \<Rightarrow> string"
  readable :: "string \<Rightarrow> bool"
  load_source :: "string \<Rightarrow> string \<Rightarrow> 'a load_result"
  Spec :: "string \<Rightarrow> 'a spec"
  spec_str :: "'a spec \<Rightarrow> string"
  ProviderIndex :: "string list \<Rightarrow> error + 'i"
  index_providers_for :: "'i \<Rightarrow> 'a spec \<Rightarrow> 'a spec list"

text \<open>
  The state: the store of identity objects (\<open>heap\<close>, with the next free address), the
  counter of package objects, the fields of the \<open>PackageDB\<close>, the tables of its two
  \<open>@memoized\<close> methods (the entries whose \<open>self\<close> is this registry), and two
  logs: the files given to \<open>imp.load_source\<close> and the number of provider indexes
  built.  The keys of \<open>instances\<close> are addresses of identity objects.
\<close>

record ('a, 'i) state =
  heap :: "nat \<Rightarrow> 'a spec"
  next_addr :: nat
  next_oid :: nat
  root :: string
  instances :: "(nat \<times> 'a package_instance) list"
  provider_index :: "'i option"
  all_package_names_cache :: "(unit \<times> string list) list"
  get_class_cache :: "(string \<times> 'a package_class) list"
  load_log :: "string list"
  index_builds :: nat

definition imported_packages_module :: string where
  "imported_packages_module = ''spack.packages''"

definition package_file_name :: string where
  "package_file_name = ''package.py''"

text \<open>\<open>PackageDB(root)\<close>, in a program whose store is \<open>hp\<close> with \<open>n\<close> objects.\<close>

definition PackageDB :: "string \<Rightarrow> (nat \<Rightarrow> 'a spec) \<Rightarrow> nat \<Rightarrow> ('a, 'i) state" where
  "PackageDB r hp n =
     \<lparr> heap = hp, next_addr = n, next_oid = 0, root = r, instances = [],
       provider_index = None, all_package_names_cache = [], get_class_cache = [],
       load_log = [], index_builds = 0 \<rparr>"

text \<open>
  \<open>memoized(obj)\<close>: \<open>if args not in cache: cache[args] = obj(*args)\<close>, then
  \<open>return cache[args]\<close>.  When \<open>obj\<close> raises, nothing is stored.
\<close>

definition memoized ::
  "('k \<Rightarrow> 's \<Rightarrow> (error + 'v) \<times> 's) \<Rightarrow> ('s \<Rightarrow> ('k \<times> 'v) list) \<Rightarrow>
   ((('k \<times> 'v) list \<Rightarrow> ('k \<times> 'v) list) \<Rightarrow> 's \<Rightarrow> 's) \<Rightarrow> 'k \<Rightarrow> 's \<Rightarrow> (error + 'v) \<times> 's" where
  "memoized obj cache cache_update args s =
     (case map_of (cache s) args of
        Some v \<Rightarrow> (Inr v, s)
      | None \<Rightarrow>
          (case obj args s of
             (Inl e, s') \<Rightarrow> (Inl e, s')
           | (Inr v, s') \<Rightarrow> (Inr v, cache_update (\<lambda>c. (args, v) # c) s')))"

subsection \<open>The instance dict\<close>

text \<open>
  A dict finds the entry of a key that is the same object, or has the same hash and is
  equal (the stored key's \<open>__eq__\<close>, applied to the key looked up).  Both methods of an
  identity are those \<open>key_ordering\<close> generates from \<open>Spec_cmp_key\<close>.
\<close>

definition key_match :: "('a, 'i) environment \<Rightarrow> (nat \<Rightarrow> 'a spec) \<Rightarrow> nat \<Rightarrow> nat \<Rightarrow> bool" where
  "key_match E hp a k =
     (k = a \<or>
      (ko_hash (py_hash E) Spec_cmp_key (hp k) = ko_hash (py_hash E) Spec_cmp_key (hp a) \<and>
       ko_eq Spec_cmp_key (hp k) (Some (hp a))))"

definition dict_get ::
  "('a, 'i) environment \<Rightarrow> (nat \<Rightarrow> 'a spec) \<Rightarrow> (nat \<times> 'v) list \<Rightarrow> nat \<Rightarrow> 'v option" where
  "dict_get E hp d a = map_option snd (find (\<lambda>e. key_match E hp a (fst e)) d)"

definition dict_contains ::
  "('a, 'i) environment \<Rightarrow> (nat \<Rightarrow> 'a spec) \<Rightarrow> (nat \<times> 'v) list \<Rightarrow> nat \<Rightarrow> bool" where
  "dict_contains E hp d a = (dict_get E hp d a \<noteq> None)"

fun dict_del :: "(nat \<Rightarrow> bool) \<Rightarrow> (nat \<times> 'v) list \<Rightarrow> (nat \<times> 'v) list" where
  "dict_del P [] = []"
| "dict_del P (e # d) = (if P (fst e) then d else e # dict_del P d)"

subsection \<open>Recipe classes\<close>

definition dirname_for_package_name :: "('a, 'i) state \<Rightarrow> string \<Rightarrow> string" where
  "dirname_for_package_name s pkg_name = join_path (root s) pkg_name"

definition filename_for_package_name ::
  "('a, 'i) environment \<Rightarrow> ('a, 'i) state \<Rightarrow> string \<Rightarrow> error + string" where
  "filename_for_package_name E s pkg_name =
     (if \<not> validate_module_name E pkg_name then Inl (InvalidModuleNameError pkg_name)
      else Inr (join_path (dirname_for_package_name s pkg_name) package_file_name))"

text \<open>The body of \<open>get_class_for_package_name\<close>, under the decorator.\<close>

definition load_class ::
  "('a, 'i) environment \<Rightarrow> filesystem \<Rightarrow> string \<Rightarrow> ('a, 'i) state \<Rightarrow>
   (error + 'a package_class) \<times> ('a, 'i) state" where
  "load_class E fs pkg_name s =
     (case filename_for_package_name E s pkg_name of
        Inl e \<Rightarrow> (Inl e, s)
      | Inr file_path \<Rightarrow>
          if exists fs file_path then
            if \<not> isfile fs file_path then (Inl (Die (file_path @ '' is not a file!'')), s)
            else if \<not> readable E file_path then (Inl (Die (''Cannot read '' @ file_path)), s)
            else
              (let class_name = mod_to_class E pkg_name;
                   module_name = imported_packages_module @ ''.'' @ pkg_name;
                   s1 = s\<lparr>load_log := load_log s @ [file_path]\<rparr>
               in case load_source E module_name file_path of
                    ImportError m \<Rightarrow> (Inl (Die (''Error while importing '' @ pkg_name)), s1)
                  | LoadRaised m \<Rightarrow> (Inl (OtherError m), s1)
                  | Module attrs \<Rightarrow>
                      (case attrs class_name of
                         None \<Rightarrow> (Inl (AttributeError class_name), s1)
                       | Some NotAClass \<Rightarrow> (Inl (Die (class_name @ '' is not a class'')), s1)
                       | Some (Class cls) \<Rightarrow> (Inr cls, s1)))
          else (Inl (UnknownPackageError pkg_name), s))"

definition get_class_for_package_name ::
  "('a, 'i) environment \<Rightarrow> filesystem \<Rightarrow> string \<Rightarrow> ('a, 'i) state \<Rightarrow>
   (error + 'a package_class) \<times> ('a, 'i) state" where
  "get_class_for_package_name E fs =
     memoized (load_class E fs) get_class_cache get_class_cache_update"

subsection \<open>get, delete, purge\<close>

text \<open>
  \<open>get(spec, new=...)\<close>, the identity object being the one at address \<open>a\<close>.  In
  \<open>self.instances[spec.copy()] = package_class(spec)\<close> the constructor runs first; the
  copy is a new object, at the next free address, holding the value of the original.
\<close>

definition get ::
  "('a, 'i) environment \<Rightarrow> filesystem \<Rightarrow> nat \<Rightarrow> bool \<Rightarrow> ('a, 'i) state \<Rightarrow>
   (error + 'a package_instance) \<times> ('a, 'i) state" where
  "get E fs a new s =
     (if spec_virtual (heap s a) then (Inl (UnknownPackageError (spec_name (heap s a))), s)
      else
        let s1 = (if new \<and> dict_contains E (heap s) (instances s) a
                  then s\<lparr>instances := dict_del (key_match E (heap s) a) (instances s)\<rparr> else s)
        in if \<not> dict_contains E (heap s1) (instances s1) a then
             (case get_class_for_package_name E fs (spec_name (heap s1 a)) s1 of
                (Inl e, s2) \<Rightarrow> (Inl e, s2)
              | (Inr package_class, s2) \<Rightarrow>
                  (case package_class (heap s2 a) of
                     Raised reason \<Rightarrow>
                       (Inl (FailedConstructorError (spec_name (heap s2 a)) reason), s2)
                   | Exited msg \<Rightarrow> (Inl (Die msg), s2)
                   | Constructed pkg \<Rightarrow>
                       (let k = next_addr s2;
                            s3 = s2\<lparr>heap := (heap s2)(k := heap s2 a), next_addr := Suc k,
                                    next_oid := Suc (next_oid s2),
                                    instances := instances s2 @ [(k, (next_oid s2, pkg))]\<rparr>
                        in case dict_get E (heap s3) (instances s3) a of
                             None \<Rightarrow> (Inl KeyError, s3)
                           | Some inst \<Rightarrow> (Inr inst, s3))))
           else
             (case dict_get E (heap s1) (instances s1) a of
                None \<Rightarrow> (Inl KeyError, s1)
              | Some inst \<Rightarrow> (Inr inst, s1)))"

text \<open>\<open>_autospec\<close> on a name: a new identity object is built from it.\<close>

definition autospec :: "('a, 'i) environment \<Rightarrow> string \<Rightarrow> ('a, 'i) state \<Rightarrow> nat \<times> ('a, 'i) state" where
  "autospec E spec_like s =
     (next_addr s, s\<lparr>heap := (heap s)(next_addr s := Spec E spec_like),
                     next_addr := Suc (next_addr s)\<rparr>)"

definition get_by_name ::
  "('a, 'i) environment \<Rightarrow> filesystem \<Rightarrow> string \<Rightarrow> ('a, 'i) state \<Rightarrow>
   (error + 'a package_instance) \<times> ('a, 'i) state" where
  "get_by_name E fs pkg_name s = (case autospec E pkg_name s of (a, s1) \<Rightarrow> get E fs a False s1)"

definition delete ::
  "('a, 'i) environment \<Rightarrow> nat \<Rightarrow> ('a, 'i) state \<Rightarrow> (error + unit) \<times> ('a, 'i) state" where
  "delete E a s =
     (if dict_contains E (heap s) (instances s) a
      then (Inr (), s\<lparr>instances := dict_del (key_match E (heap s) a) (instances s)\<rparr>)
      else (Inl KeyError, s))"

definition purge :: "('a, 'i) state \<Rightarrow> ('a, 'i) state" where
  "purge s = s\<lparr>instances := []\<rparr>"

text \<open>The dict that \<open>get\<close> continues with after the eviction asked for by \<open>new\<close>.\<close>

definition evicted ::
  "('a, 'i) environment \<Rightarrow> nat \<Rightarrow> bool \<Rightarrow> ('a, 'i) state \<Rightarrow> (nat \<times> 'a package_instance) list" where
  "evicted E a new s =
     (if new \<and> dict_contains E (heap s) (instances s) a
      then dict_del (key_match E (heap s) a) (instances s) else instances s)"

text \<open>
  Well-formed states: the keys of the instance dict are allocated identity objects with
  pairwise different values (it is a dict), and the cached package objects are allocated and
  pairwise different objects.
\<close>

definition well_formed :: "('a, 'i) state \<Rightarrow> bool" where
  "well_formed s \<longleftrightarrow>
     (\<forall>e \<in> set (instances s). fst e < next_addr s \<and> fst (snd e) < next_oid s) \<and>
     distinct (map (\<lambda>e. fst (snd e)) (instances s)) \<and>
     distinct (map (\<lambda>e. Spec_cmp_key (heap s (fst e))) (instances s))"

subsection \<open>all_package_names\<close>

text \<open>The loop of \<open>all_package_names\<close>; the list is sorted at the end of every round.\<close>

fun collect_package_names :: "filesystem \<Rightarrow> string \<Rightarrow> string list \<Rightarrow> string list \<Rightarrow> string list" where
  "collect_package_names fs r [] all_package_names = all_package_names"
| "collect_package_names fs r (pkg_name # rest) all_package_names =
     (let pkg_dir = join_path r pkg_name;
          pkg_file = join_path pkg_dir package_file_name;
          appended = (if isfile fs pkg_file then all_package_names @ [pkg_name]
                      else all_package_names)
      in collect_package_names fs r rest (sort appended))"

definition scan_package_names ::
  "filesystem \<Rightarrow> unit \<Rightarrow> ('a, 'i) state \<Rightarrow> (error + string list) \<times> ('a, 'i) state" where
  "scan_package_names fs u s =
     (case listdir fs (root s) of
        Inl e \<Rightarrow> (Inl e, s)
      | Inr entries \<Rightarrow> (Inr (collect_package_names fs (root s) entries []), s))"

definition all_package_names ::
  "filesystem \<Rightarrow> ('a, 'i) state \<Rightarrow> (error + string list) \<times> ('a, 'i) state" where
  "all_package_names fs =
     memoized (scan_package_names fs) all_package_names_cache all_package_names_cache_update ()"

subsection \<open>providers_for\<close>

definition providers_for ::
  "('a, 'i) environment \<Rightarrow> filesystem \<Rightarrow> 'a spec \<Rightarrow> ('a, 'i) state \<Rightarrow>
   (error + 'a spec list) \<times> ('a, 'i) state" where
  "providers_for E fs vpkg_spec s =
     (let built =
        (case provider_index s of
           Some idx \<Rightarrow> (Inr idx, s)
         | None \<Rightarrow>
             (case all_package_names fs s of
                (Inl e, s1) \<Rightarrow> (Inl e, s1)
              | (Inr names, s1) \<Rightarrow>
                  (case ProviderIndex E names of
                     Inl e \<Rightarrow> (Inl e, s1)
                   | Inr idx \<Rightarrow>
                       (Inr idx, s1\<lparr>provider_index := Some idx,
                                    index_builds := Suc (index_builds s1)\<rparr>))))
      in case built of
           (Inl e, s2) \<Rightarrow> (Inl e, s2)
         | (Inr idx, s2) \<Rightarrow>
             (let providers = index_providers_for E idx vpkg_spec
              in if providers = []
                 then (Inl (UnknownPackageError (''No such virtual package: '' @ spec_str E vpkg_spec)), s2)
                 else (Inr providers, s2)))"

subsection \<open>graph_dependencies\<close>

definition quote :: "string \<Rightarrow> string" where
  "quote string = ''\"'' @ string @ ''\"''"

text \<open>The conversion \<open>%-30s\<close>: left-justified in a field of at least 30 characters.\<close>

definition ljust30 :: "string \<Rightarrow> string" where
  "ljust30 x = x @ replicate (30 - length x) (CHR '' '')"

definition node_line :: "'a package \<Rightarrow> string" where
  "node_line pkg = ''  '' @ ljust30 (quote (package_name pkg)) @ '' [label=\"'' @ package_name pkg @ ''\"]'' @ [CHR 0x0A]"

definition edge_line :: "string \<times> string \<Rightarrow> string" where
  "edge_line pair = ''  \"'' @ fst pair @ ''\" -> \"'' @ snd pair @ ''\"'' @ [CHR 0x0A]"

text \<open>
  The pairs one package adds to \<open>deps\<close>.  The names of the keys of \<open>provided\<close> go
  through a \<open>set\<close>; its iteration order is taken to be that of first occurrence.
\<close>

definition package_deps :: "'a package \<Rightarrow> (string \<times> string) list" where
  "package_deps pkg =
     map (\<lambda>(dep_name, dep). (package_name pkg, dep_name)) (dependencies pkg) @
     map (\<lambda>provider. (provider, package_name pkg)) (remdups (map spec_name (provided pkg)))"

text \<open>
  The loop over \<open>self.all_packages()\<close>: each name is given to \<open>get\<close>, whose exception
  ends the whole call with what has been written so far.
\<close>

fun graph_packages ::
  "('a, 'i) environment \<Rightarrow> filesystem \<Rightarrow> string list \<Rightarrow> (string \<times> string) list \<Rightarrow>
   string list \<Rightarrow> ('a, 'i) state \<Rightarrow> (error + (string \<times> string) list) \<times> string list \<times> ('a, 'i) state" where
  "graph_packages E fs [] deps out s = (Inr deps, out, s)"
| "graph_packages E fs (n # names) deps out s =
     (case get_by_name E fs n s of
        (Inl e, s1) \<Rightarrow> (Inl e, out, s1)
      | (Inr (oid, pkg), s1) \<Rightarrow>
          graph_packages E fs names (deps @ package_deps pkg) (out @ [node_line pkg]) s1)"

definition graph_header :: "string list" where
  "graph_header =
     [''digraph G {'' @ [CHR 0x0A],
      ''  label = \"Spack Dependencies\"'' @ [CHR 0x0A],
      ''  labelloc = \"b\"'' @ [CHR 0x0A],
      ''  rankdir = \"LR\"'' @ [CHR 0x0A],
      ''  ranksep = \"5\"'' @ [CHR 0x0A],
      [CHR 0x0A]]"

text \<open>\<open>out\<close> is the list of strings written to the sink, in order.\<close>

definition graph_dependencies ::
  "('a, 'i) environment \<Rightarrow> filesystem \<Rightarrow> ('a, 'i) state \<Rightarrow>
   (error + unit) \<times> string list \<times> ('a, 'i) state" where
  "graph_dependencies E fs s =
     (let out = graph_header
      in case all_package_names fs s of
           (Inl e, s1) \<Rightarrow> (Inl e, out, s1)
         | (Inr names, s1) \<Rightarrow>
             (case graph_packages E fs names [] out s1 of
                (Inl e, out1, s2) \<Rightarrow> (Inl e, out1, s2)
              | (Inr deps, out1, s2) \<Rightarrow>
                  (Inr (), out1 @ [[CHR 0x0A]] @ map edge_line deps @ [''}'' @ [CHR 0x0A]], s2)))"

subsection \<open>The lifetime of a registry\<close>

text \<open>
  \<open>all_packages\<close>, the generator, run to its end: the instances that \<open>get\<close> returns
  for the names, in order.
\<close>

fun all_packages ::
  "('a, 'i) environment \<Rightarrow> filesystem \<Rightarrow> string list \<Rightarrow> ('a, 'i) state \<Rightarrow>
   (error + 'a package_instance list) \<times> ('a, 'i) state" where
  "all_packages E fs [] s = (Inr [], s)"
| "all_packages E fs (n # names) s =
     (case get_by_name E fs n s of
        (Inl e, s1) \<Rightarrow> (Inl e, s1)
      | (Inr inst, s1) \<Rightarrow>
          (case all_packages E fs names s1 of
             (Inl e, s2) \<Rightarrow> (Inl e, s2)
           | (Inr insts, s2) \<Rightarrow> (Inr (inst # insts), s2)))"

text \<open>
  The states a registry goes through: it is created, the program creates identity objects
  and changes those that are its own (the keys of the instance dict are the registry's copies),
  and calls the methods, each against the file system of that moment.
\<close>

inductive reachable :: "('a, 'i) environment \<Rightarrow> ('a, 'i) state \<Rightarrow> bool" for E where
  r_init: "reachable E (PackageDB r hp n)"
| r_alloc: "reachable E s \<Longrightarrow>
     reachable E (s\<lparr>heap := (heap s)(next_addr s := v), next_addr := Suc (next_addr s)\<rparr>)"
| r_mutate: "reachable E s \<Longrightarrow> a \<notin> fst ` set (instances s) \<Longrightarrow>
     reachable E (s\<lparr>heap := (heap s)(a := v)\<rparr>)"
| r_get: "reachable E s \<Longrightarrow> get E fs a new s = (r1, s') \<Longrightarrow> reachable E s'"
| r_delete: "reachable E s \<Longrightarrow> delete E a s = (r2, s') \<Longrightarrow> reachable E s'"
| r_purge: "reachable E s \<Longrightarrow> reachable E (purge s)"
| r_providers_for: "reachable E s \<Longrightarrow> providers_for E fs v' s = (r3, s') \<Longrightarrow> reachable E s'"
| r_all_package_names: "reachable E s \<Longrightarrow> all_package_names fs s = (r4, s') \<Longrightarrow> reachable E s'"
| r_get_class: "reachable E s \<Longrightarrow> get_class_for_package_name E fs pkg s = (r5, s') \<Longrightarrow>
     reachable E s'"
| r_graph_dependencies: "reachable E s \<Longrightarrow> graph_dependencies E fs s = (r6, out, s') \<Longrightarrow>
     reachable E s'"

section \<open>File system operations\<close>

text \<open>\<open>os.unlink\<close> removes a file or a link; it fails on a directory or a missing path.\<close>

definition unlink :: "filesystem \<Rightarrow> string \<Rightarrow> error + filesystem" where
  "unlink fs p =
     (case map_of fs p of
        None \<Rightarrow> Inl (OSError ''unlink: no such file'')
      | Some Dir \<Rightarrow> Inl (OSError ''unlink: is a directory'')
      | Some _ \<Rightarrow> Inr (filter (\<lambda>e. fst e \<noteq> p) fs))"

definition under :: "string \<Rightarrow> string \<Rightarrow> bool" where
  "under d k = startswith k (if d = [] \<or> last d = CHR ''/'' then d else d @ ''/'')"

text \<open>
  \<open>shutil.rmtree(p, True)\<close>: errors are ignored, so on anything but a real directory
  (a file, a link, a missing path) nothing happens.
\<close>

definition rmtree :: "filesystem \<Rightarrow> string \<Rightarrow> filesystem" where
  "rmtree fs p =
     (case map_of fs p of
        Some Dir \<Rightarrow> filter (\<lambda>e. fst e \<noteq> p \<and> \<not> under p (fst e)) fs
      | _ \<Rightarrow> fs)"

definition symlink :: "filesystem \<Rightarrow> string \<Rightarrow> string \<Rightarrow> error + filesystem" where
  "symlink fs target p =
     (if map_of fs p \<noteq> None then Inl (OSError ''symlink: file exists'')
      else Inr (fs @ [(p, Link target)]))"

definition makedirs :: "filesystem \<Rightarrow> string \<Rightarrow> error + filesystem" where
  "makedirs fs p =
     (if map_of fs p \<noteq> None then Inl (OSError ''mkdir: file exists'')
      else Inr (fs @ [(p, Dir)]))"

definition mkdirp :: "filesystem \<Rightarrow> string \<Rightarrow> error + filesystem" where
  "mkdirp fs p =
     (if \<not> exists fs p then makedirs fs p
      else if \<not> isdir fs p then Inl (OSError ''File alredy exists'')
      else Inr fs)"

text \<open>
  \<open>tempfile.mkdtemp('', prefix, dir)\<close>: the random names drawn are the list
  \<open>candidates\<close>; a name in use is skipped, any other failure of \<open>mkdir\<close> is raised.
\<close>

fun mkdtemp :: "string list \<Rightarrow> string \<Rightarrow> string \<Rightarrow> filesystem \<Rightarrow> error + (string \<times> filesystem)" where
  "mkdtemp [] pre dir fs = Inl (OSError ''No usable temporary directory name found'')"
| "mkdtemp (c # candidates) pre dir fs =
     (let file = join_path dir (pre @ c)
      in if map_of fs file \<noteq> None then mkdtemp candidates pre dir fs
         else if isdir fs dir then Inr (file, fs @ [(file, Dir)])
         else Inl (OSError ''mkdir: no such directory''))"

section \<open>spack.stage\<close>

definition STAGE_PREFIX :: string where
  "STAGE_PREFIX = ''spack-stage-''"

text \<open>
  The configuration the module reads: \<open>spack.stage_path\<close>, \<open>spack.use_tmp_stage\<close>
  and the mirror URLs that \<open>_get_mirrors()\<close> returns.
\<close>

record config =
  stage_path :: string
  use_tmp_stage :: bool
  mirrors :: "string list"

text \<open>The process: the file system and the working directory.\<close>

record os_state =
  files :: filesystem
  cwd :: string

datatype fetch_strategy =
    URLFetchStrategy string "string option"
  | VCSFetchStrategy string

text \<open>A constructed \<open>Stage\<close>.\<close>

record stage =
  st_name :: string
  st_path :: string
  st_tmp_root :: "string option"
  st_mirror_path :: "string option"
  st_fetcher :: fetch_strategy

text \<open>Truth value of an optional string: \<open>None\<close> and \<open>''\<close> are false.\<close>

definition truthy :: "string option \<Rightarrow> bool" where
  "truthy x = (case x of None \<Rightarrow> False | Some v \<Rightarrow> v \<noteq> [])"

subsection \<open>Setup\<close>

fun cleanup_links :: "string \<Rightarrow> string list \<Rightarrow> filesystem \<Rightarrow> (error + unit) \<times> filesystem" where
  "cleanup_links d [] fs = (Inr (), fs)"
| "cleanup_links d (file # rest) fs =
     (let path = join_path d file
      in if islink fs path \<and> \<not> exists fs path
         then (case unlink fs path of
                 Inl e \<Rightarrow> (Inl e, fs)
               | Inr fs' \<Rightarrow> cleanup_links d rest fs')
         else cleanup_links d rest fs)"

definition cleanup_dead_links :: "config \<Rightarrow> filesystem \<Rightarrow> (error + unit) \<times> filesystem" where
  "cleanup_dead_links cfg fs =
     (case listdir fs (stage_path cfg) of
        Inl e \<Rightarrow> (Inl e, fs)
      | Inr entries \<Rightarrow> cleanup_links (stage_path cfg) entries fs)"

text \<open>
  \<open>_need_to_create_path\<close>, reading \<open>self.tmp_root\<close> and \<open>self.path\<close>.  Both real
  paths are computed before \<open>use_tmp_stage\<close> is looked at, and \<open>os.path.realpath(None)\<close>
  raises \<open>AttributeError\<close>.
\<close>

definition unlink_and_create :: "filesystem \<Rightarrow> string \<Rightarrow> (error + bool) \<times> filesystem" where
  "unlink_and_create fs path =
     (case unlink fs path of Inl e \<Rightarrow> (Inl e, fs) | Inr fs' \<Rightarrow> (Inr True, fs'))"

definition need_to_create_path ::
  "config \<Rightarrow> string option \<Rightarrow> string \<Rightarrow> filesystem \<Rightarrow> (error + bool) \<times> filesystem" where
  "need_to_create_path cfg tmp_root path fs =
     (if \<not> exists fs path then (Inr True, fs)
      else if \<not> isdir fs path then unlink_and_create fs path
      else if islink fs path then
        (case tmp_root of
           None \<Rightarrow> (Inl (AttributeError ''realpath(None)''), fs)
         | Some tmp \<Rightarrow>
             (let real_path = realpath fs path;
                  real_tmp = realpath fs tmp
              in if use_tmp_stage cfg then
                   if startswith real_path real_tmp \<and> exists fs real_path then (Inr False, fs)
                   else unlink_and_create fs path
                 else unlink_and_create fs path))
      else (Inr False, fs))"

definition ensure_access :: "filesystem \<Rightarrow> string \<Rightarrow> string \<times> string \<Rightarrow> (error + string \<times> string) \<times> filesystem" where
  "ensure_access fs path r =
     (if exists fs path then (Inr r, fs)
      else (Inl (Die (''Insufficient permissions for '' @ path)), fs))"

text \<open>
  \<open>Stage._setup\<close>, from \<open>self.name\<close> and \<open>self.tmp_root\<close>; it returns the name and the
  path of the stage.  In every case the file system is returned as the call left it.
\<close>

definition setup_stage ::
  "config \<Rightarrow> string option \<Rightarrow> string option \<Rightarrow> string list \<Rightarrow> filesystem \<Rightarrow>
   (error + string \<times> string) \<times> filesystem" where
  "setup_stage cfg name tmp_root candidates fs =
     (case mkdirp fs (stage_path cfg) of
        Inl e \<Rightarrow> (Inl e, fs)
      | Inr fs1 \<Rightarrow>
     (case cleanup_dead_links cfg fs1 of
        (Inl e, fs2) \<Rightarrow> (Inl e, fs2)
      | (Inr u, fs2) \<Rightarrow>
     (case (if truthy tmp_root then tmp_root else None) of
        Some tmp \<Rightarrow>
        (case name of
           None \<Rightarrow>
             (case mkdtemp candidates STAGE_PREFIX tmp fs2 of
                Inl e \<Rightarrow> (Inl e, fs2)
              | Inr (tmp_dir, fs3) \<Rightarrow>
                  (let name' = basename tmp_dir;
                       path = join_path (stage_path cfg) name'
                   in case need_to_create_path cfg tmp_root path fs3 of
                        (Inl e, fs4) \<Rightarrow> (Inl e, fs4)
                      | (Inr False, fs4) \<Rightarrow> ensure_access fs4 path (name', path)
                      | (Inr True, fs4) \<Rightarrow>
                          (case symlink fs4 tmp_dir path of
                             Inl e \<Rightarrow> (Inl e, fs4)
                           | Inr fs5 \<Rightarrow> ensure_access fs5 path (name', path))))
         | Some name' \<Rightarrow>
             (let path = join_path (stage_path cfg) name'
              in case need_to_create_path cfg tmp_root path fs2 of
                   (Inl e, fs3) \<Rightarrow> (Inl e, fs3)
                 | (Inr False, fs3) \<Rightarrow> ensure_access fs3 path (name', path)
                 | (Inr True, fs3) \<Rightarrow>
                     (case mkdtemp candidates STAGE_PREFIX tmp fs3 of
                        Inl e \<Rightarrow> (Inl e, fs3)
                      | Inr (tmp_dir, fs4) \<Rightarrow>
                          (case symlink fs4 tmp_dir path of
                             Inl e \<Rightarrow> (Inl e, fs4)
                           | Inr fs5 \<Rightarrow> ensure_access fs5 path (name', path)))))
      | None \<Rightarrow>
        (case name of
           None \<Rightarrow>
             (case mkdtemp candidates STAGE_PREFIX (stage_path cfg) fs2 of
                Inl e \<Rightarrow> (Inl e, fs2)
              | Inr (path, fs3) \<Rightarrow> ensure_access fs3 path (basename path, path))
         | Some name' \<Rightarrow>
             (let path = join_path (stage_path cfg) name'
              in case need_to_create_path cfg tmp_root path fs2 of
                   (Inl e, fs3) \<Rightarrow> (Inl e, fs3)
                 | (Inr False, fs3) \<Rightarrow> ensure_access fs3 path (name', path)
                 | (Inr True, fs3) \<Rightarrow>
                     (case mkdirp fs3 path of
                        Inl e \<Rightarrow> (Inl e, fs3)
                      | Inr fs4 \<Rightarrow> ensure_access fs4 path (name', path)))))))"

subsection \<open>fetch\<close>

text \<open>\<open>chdir\<close>: the working directory becomes the stage directory, or the call dies.\<close>

definition chdir :: "stage \<Rightarrow> os_state \<Rightarrow> (error + unit) \<times> os_state" where
  "chdir self os =
     (if isdir (files os) (st_path self)
      then (Inr (), os\<lparr>cwd := realpath (files os) (st_path self)\<rparr>)
      else (Inl (Die (''Setup failed: no such directory: '' @ st_path self)), os))"

text \<open>The list \<open>fetchers\<close> that \<open>fetch\<close> builds.\<close>

definition fetchers :: "config \<Rightarrow> stage \<Rightarrow> fetch_strategy list" where
  "fetchers cfg self =
     (case (if truthy (st_mirror_path self) then st_mirror_path self else None) of
        Some mirror_path \<Rightarrow>
          (let urls = map (\<lambda>m. m @ ''/'' @ mirror_path) (mirrors cfg);
               digest = (case st_fetcher self of
                           URLFetchStrategy url d \<Rightarrow> d
                         | VCSFetchStrategy r \<Rightarrow> None)
           in map (\<lambda>url. URLFetchStrategy url digest) urls @ [st_fetcher self])
      | None \<Rightarrow> [st_fetcher self])"

text \<open>
  The loop of \<open>fetch\<close>.  \<open>run\<close> is \<open>fetcher.fetch()\<close>, which is not among the
  sources: it returns or raises, and may change the process.  The second component of
  the result lists the fetchers whose \<open>fetch()\<close> was called, in order.
\<close>

fun try_fetchers ::
  "(fetch_strategy \<Rightarrow> os_state \<Rightarrow> (error + unit) \<times> os_state) \<Rightarrow> fetch_strategy list \<Rightarrow>
   fetch_strategy list \<Rightarrow> os_state \<Rightarrow> (error + unit) \<times> fetch_strategy list \<times> os_state" where
  "try_fetchers run [] tried os = (Inr (), tried, os)"
| "try_fetchers run (fetcher # rest) tried os =
     (case run fetcher os of
        (Inr u, os') \<Rightarrow> (Inr (), tried @ [fetcher], os')
      | (Inl e, os') \<Rightarrow>
          if is_SpackError e then try_fetchers run rest (tried @ [fetcher]) os'
          else (Inl e, tried @ [fetcher], os'))"

definition fetch ::
  "config \<Rightarrow> (fetch_strategy \<Rightarrow> os_state \<Rightarrow> (error + unit) \<times> os_state) \<Rightarrow> stage \<Rightarrow> os_state \<Rightarrow>
   (error + unit) \<times> fetch_strategy list \<times> os_state" where
  "fetch cfg run self os =
     (case chdir self os of
        (Inl e, os1) \<Rightarrow> (Inl e, [], os1)
      | (Inr u, os1) \<Rightarrow> try_fetchers run (fetchers cfg self) [] os1)"

subsection \<open>destroy\<close>

definition remove_linked_tree :: "filesystem \<Rightarrow> string \<Rightarrow> (error + unit) \<times> filesystem" where
  "remove_linked_tree fs path =
     (if exists fs path then
        if islink fs path then
          (let fs1 = rmtree fs (realpath fs path)
           in case unlink fs1 path of
                Inl e \<Rightarrow> (Inl e, fs1)
              | Inr fs2 \<Rightarrow> (Inr (), fs2))
        else (Inr (), rmtree fs path)
      else (Inr (), fs))"

text \<open>
  \<open>destroy\<close>.  \<open>os.getcwd()\<close> raises \<open>OSError\<close> when the working directory is gone;
  then \<open>os.chdir(os.path.dirname(self.path))\<close> runs, and raises when that is no directory.
\<close>

definition destroy :: "stage \<Rightarrow> os_state \<Rightarrow> (error + unit) \<times> os_state" where
  "destroy self os =
     (case remove_linked_tree (files os) (st_path self) of
        (Inl e, fs1) \<Rightarrow> (Inl e, os\<lparr>files := fs1\<rparr>)
      | (Inr u, fs1) \<Rightarrow>
          if map_of fs1 (cwd os) = Some Dir then (Inr (), os\<lparr>files := fs1\<rparr>)
          else if isdir fs1 (dirname (st_path self))
          then (Inr (), \<lparr>files = fs1, cwd = realpath fs1 (dirname (st_path self))\<rparr>)
          else (Inl (OSError ''chdir: no such directory''), os\<lparr>files := fs1\<rparr>))"

text \<open>What holds during the whole lifetime of a registry, besides well-formedness.\<close>

definition index_inv :: "('a, 'i) state \<Rightarrow> bool" where
  "index_inv s \<longleftrightarrow> well_formed s \<and> index_builds s \<le> 1 \<and> (provider_index s = None \<longleftrightarrow> index_builds s = 0)"

section \<open>Example data\<close>

text \<open>
  A registry root with the packages \<open>A\<close> and \<open>B\<close>, where \<open>A\<close> depends on \<open>B\<close>.
  The further attribute of an identity is a version string; the constructor of \<open>A\<close>
  raises on the version \<open>bad\<close>.  The provider index is the list of names it was built
  from, and \<open>B\<close> is the one provider of the virtual package \<open>mpi\<close>.
\<close>

definition ex_fs :: filesystem where
  "ex_fs = [(''/r'', Dir), (''/r/B'', Dir), (''/r/B/package.py'', File),
            (''/r/A'', Dir), (''/r/A/package.py'', File)]"

definition ex_spec :: "string \<Rightarrow> string \<Rightarrow> string spec" where
  "ex_spec n v = \<lparr>spec_name = n, spec_virtual = False, spec_attrs = v\<rparr>"

definition ex_pkgA :: "string package" where
  "ex_pkgA = \<lparr>package_name = ''A'', dependencies = [(''B'', ex_spec ''B'' [])], provided = []\<rparr>"

definition ex_pkgB :: "string package" where
  "ex_pkgB = \<lparr>package_name = ''B'', dependencies = [], provided = []\<rparr>"

definition ex_classA :: "string package_class" where
  "ex_classA sp = (if spec_attrs sp = ''bad'' then Raised ''unsupported version''
                   else Constructed ex_pkgA)"

definition ex_classB :: "string package_class" where
  "ex_classB sp = Constructed ex_pkgB"

definition ex_load_source :: "string \<Rightarrow> string \<Rightarrow> string load_result" where
  "ex_load_source module_name file_path =
     (if file_path = ''/r/A/package.py''
      then Module (\<lambda>c. if c = ''A'' then Some (Class ex_classA) else None)
      else if file_path = ''/r/B/package.py''
      then Module (\<lambda>c. if c = ''B'' then Some (Class ex_classB) else None)
      else ImportError ''no such file'')"

definition ex_env :: "(string, string list) environment" where
  "ex_env =
     \<lparr> py_hash = (\<lambda>k. int (length (fst k) + length (snd k))),
       validate_module_name = (\<lambda>n. True),
       mod_to_class = (\<lambda>n. n),
       readable = (\<lambda>p. True),
       load_source = ex_load_source,
       Spec = (\<lambda>n. ex_spec n []),
       spec_str = spec_name,
       ProviderIndex = (\<lambda>names. Inr names),
       index_providers_for = (\<lambda>idx v. if spec_name v = ''mpi'' \<and> ''B'' \<in> set idx
                                       then [ex_spec ''B'' []] else []) \<rparr>"

text \<open>
  A program with four identity objects: \<open>A@1.0\<close> twice (two objects, equal), \<open>A@2.0\<close>
  and \<open>A@bad\<close>; and its new registry.
\<close>

definition ex_heap :: "nat \<Rightarrow> string spec" where
  "ex_heap n = (if n = 0 \<or> n = 1 then ex_spec ''A'' ''1.0''
                else if n = 2 then ex_spec ''A'' ''2.0''
                else if n = 3 then ex_spec ''A'' ''bad''
                else \<lparr>spec_name = ''mpi'', spec_virtual = True, spec_attrs = []\<rparr>)"

definition ex_db :: "(string, string list) state" where
  "ex_db = PackageDB ''/r'' ex_heap 5"

definition ex_mpi :: "string spec" where
  "ex_mpi = \<lparr>spec_name = ''mpi'', spec_virtual = True, spec_attrs = []\<rparr>"

definition ex_blas :: "string spec" where
  "ex_blas = \<lparr>spec_name = ''blas'', spec_virtual = True, spec_attrs = []\<rparr>"

text \<open>A registry root with two packages and a directory without recipe file.\<close>

definition ex_fs_names :: filesystem where
  "ex_fs_names = [(''/pkgs'', Dir), (''/pkgs/zlib'', Dir), (''/pkgs/zlib/package.py'', File),
                  (''/pkgs/scratch'', Dir), (''/pkgs/boost'', Dir),
                  (''/pkgs/boost/package.py'', File)]"

text \<open>The same root later: the two packages are gone and \<open>scratch\<close> has a recipe file.\<close>

definition ex_fs_later :: filesystem where
  "ex_fs_later = [(''/pkgs'', Dir), (''/pkgs/scratch'', Dir), (''/pkgs/scratch/package.py'', File)]"

section \<open>Properties of key_ordering\<close>

lemma ko_eq_None: "\<not> ko_eq cmp_key x None"
  by (simp add: ko_eq_def)

lemma ko_eq_Some: "ko_eq cmp_key x (Some y) \<longleftrightarrow> cmp_key x = cmp_key y"
  by (simp add: ko_eq_def)

lemma ko_eq_hash: "ko_eq cmp_key x (Some y) \<Longrightarrow> ko_hash hash cmp_key x = ko_hash hash cmp_key y"
  by (simp add: ko_eq_def ko_hash_def)


section \<open>The instance cache\<close>

lemma key_match_iff: "key_match E hp a k \<longleftrightarrow> Spec_cmp_key (hp k) = Spec_cmp_key (hp a)"
  by (auto simp: key_match_def ko_eq_def ko_hash_def)

lemma memoized_hit: "map_of (cache s) k = Some v \<Longrightarrow> memoized obj cache upd k s = (Inr v, s)"
  by (simp add: memoized_def)

lemma load_class_frame:
  assumes "load_class E fs n s = (r, s')"
  shows "s' = s \<or> s' = s\<lparr>load_log := load_log s @ [join_path (join_path (root s) n) package_file_name]\<rparr>"
  using assms
  by (auto simp: load_class_def filename_for_package_name_def dirname_for_package_name_def Let_def
      split: sum.splits if_splits load_result.splits option.splits attribute.splits)

lemma get_class_frame:
  assumes "get_class_for_package_name E fs n s = (r, s')"
  shows "heap s' = heap s \<and> next_addr s' = next_addr s \<and> next_oid s' = next_oid s \<and>
         root s' = root s \<and> instances s' = instances s \<and> provider_index s' = provider_index s \<and>
         all_package_names_cache s' = all_package_names_cache s \<and> index_builds s' = index_builds s"
proof -
  obtain r0 s0 where l: "load_class E fs n s = (r0, s0)" by (cases "load_class E fs n s")
  from load_class_frame[OF l] assms l show ?thesis
    by (auto simp: get_class_for_package_name_def memoized_def split: option.splits sum.splits)
qed

lemma dict_get_cong:
  assumes "\<forall>e \<in> set d. Spec_cmp_key (hp' (fst e)) = Spec_cmp_key (hp (fst e))"
    and "Spec_cmp_key (hp' a') = Spec_cmp_key (hp a)"
  shows "dict_get E hp' d a' = dict_get E hp d a"
proof -
  have "find (\<lambda>e. key_match E hp' a' (fst e)) d = find (\<lambda>e. key_match E hp a (fst e)) d"
    using assms by (intro find_cong) (auto simp: key_match_iff)
  then show ?thesis by (simp add: dict_get_def)
qed

lemma dict_get_append:
  "dict_get E hp (d @ d') a =
     (case dict_get E hp d a of Some v \<Rightarrow> Some v | None \<Rightarrow> dict_get E hp d' a)"
  by (induction d) (auto simp: dict_get_def)

lemma dict_get_Some_mem:
  "dict_get E hp d a = Some v \<Longrightarrow>
   \<exists>k. (k, v) \<in> set d \<and> Spec_cmp_key (hp k) = Spec_cmp_key (hp a)"
  by (induction d) (auto simp: dict_get_def key_match_iff split: if_splits)

lemma set_dict_del: "set (dict_del P d) \<subseteq> set d"
  by (induction d) auto

lemma distinct_dict_del: "distinct (map f d) \<Longrightarrow> distinct (map f (dict_del P d))"
proof (induction d)
  case Nil
  then show ?case by simp
next
  case (Cons e d)
  then show ?case using set_dict_del[of P d] by auto
qed

lemma get_virtual:
  "spec_virtual (heap s a) \<Longrightarrow> get E fs a new s = (Inl (UnknownPackageError (spec_name (heap s a))), s)"
  by (simp add: get_def)

lemma evict_state:
  "(if new \<and> dict_contains E (heap s) (instances s) a
    then s\<lparr>instances := dict_del (key_match E (heap s) a) (instances s)\<rparr> else s)
   = s\<lparr>instances := evicted E a new s\<rparr>"
  by (simp add: evicted_def)

lemma dict_contains_Some: "dict_get E hp d a = Some v \<Longrightarrow> dict_contains E hp d a"
  by (simp add: dict_contains_def)

lemma dict_contains_None: "dict_get E hp d a = None \<Longrightarrow> \<not> dict_contains E hp d a"
  by (simp add: dict_contains_def)

lemma get_cached:
  assumes "\<not> spec_virtual (heap s a)" and "dict_get E (heap s) (evicted E a new s) a = Some inst"
  shows "get E fs a new s = (Inr inst, s\<lparr>instances := evicted E a new s\<rparr>)"
  unfolding get_def evict_state Let_def
  using assms dict_contains_Some[OF assms(2)] by simp

lemma get_miss:
  assumes nv: "\<not> spec_virtual (heap s a)" and none: "dict_get E (heap s) (evicted E a new s) a = None"
    and gc: "get_class_for_package_name E fs (spec_name (heap s a)) (s\<lparr>instances := evicted E a new s\<rparr>) = (rc, s2)"
  shows "get E fs a new s =
     (case rc of
        Inl e \<Rightarrow> (Inl e, s2)
      | Inr cls \<Rightarrow>
          (case cls (heap s a) of
             Raised reason \<Rightarrow> (Inl (FailedConstructorError (spec_name (heap s a)) reason), s2)
           | Exited msg \<Rightarrow> (Inl (Die msg), s2)
           | Constructed pkg \<Rightarrow>
               (let s3 = s2\<lparr>heap := (heap s)(next_addr s := heap s a), next_addr := Suc (next_addr s),
                             next_oid := Suc (next_oid s),
                             instances := evicted E a new s @ [(next_addr s, (next_oid s, pkg))]\<rparr>
                in case dict_get E (heap s3) (instances s3) a of
                     None \<Rightarrow> (Inl KeyError, s3)
                   | Some inst \<Rightarrow> (Inr inst, s3))))"
proof -
  from get_class_frame[OF gc]
  have fr: "heap s2 = heap s" "next_addr s2 = next_addr s" "next_oid s2 = next_oid s"
    "instances s2 = evicted E a new s" by simp_all
  note nc = dict_contains_None[OF none]
  have start: "get E fs a new s =
     (case (rc, s2) of
                (Inl e, s2) \<Rightarrow> (Inl e, s2)
              | (Inr package_class, s2) \<Rightarrow>
                  (case package_class (heap s2 a) of
                     Raised reason \<Rightarrow>
                       (Inl (FailedConstructorError (spec_name (heap s2 a)) reason), s2)
                   | Exited msg \<Rightarrow> (Inl (Die msg), s2)
                   | Constructed pkg \<Rightarrow>
                       (let k = next_addr s2;
                            s3 = s2\<lparr>heap := (heap s2)(k := heap s2 a), next_addr := Suc k,
                                    next_oid := Suc (next_oid s2),
                                    instances := instances s2 @ [(k, (next_oid s2, pkg))]\<rparr>
                        in case dict_get E (heap s3) (instances s3) a of
                             None \<Rightarrow> (Inl KeyError, s3)
                           | Some inst \<Rightarrow> (Inr inst, s3))))"
    unfolding get_def evict_state using nv nc gc by (simp add: Let_def)
  show ?thesis
  proof (cases rc)
    case (Inl e)
    with start show ?thesis by simp
  next
    case (Inr cls)
    show ?thesis
      by (cases "cls (heap s a)") (simp_all add: start Inr fr Let_def)
  qed
qed

lemma get_cases:
  assumes "get E fs a new s = (r, s1)"
  obtains
    (virtual) "spec_virtual (heap s a)" "r = Inl (UnknownPackageError (spec_name (heap s a)))" "s1 = s"
  | (hit) inst where "\<not> spec_virtual (heap s a)" "dict_get E (heap s) (evicted E a new s) a = Some inst"
      "r = Inr inst" "s1 = s\<lparr>instances := evicted E a new s\<rparr>"
  | (no_class) e where "\<not> spec_virtual (heap s a)" "dict_get E (heap s) (evicted E a new s) a = None"
      "get_class_for_package_name E fs (spec_name (heap s a)) (s\<lparr>instances := evicted E a new s\<rparr>) = (Inl e, s1)"
      "r = Inl e"
  | (raised) cls reason where "\<not> spec_virtual (heap s a)" "dict_get E (heap s) (evicted E a new s) a = None"
      "get_class_for_package_name E fs (spec_name (heap s a)) (s\<lparr>instances := evicted E a new s\<rparr>) = (Inr cls, s1)"
      "cls (heap s a) = Raised reason" "r = Inl (FailedConstructorError (spec_name (heap s a)) reason)"
  | (exited) cls msg where "\<not> spec_virtual (heap s a)" "dict_get E (heap s) (evicted E a new s) a = None"
      "get_class_for_package_name E fs (spec_name (heap s a)) (s\<lparr>instances := evicted E a new s\<rparr>) = (Inr cls, s1)"
      "cls (heap s a) = Exited msg" "r = Inl (Die msg)"
  | (constructed) cls s2 pkg where "\<not> spec_virtual (heap s a)" "dict_get E (heap s) (evicted E a new s) a = None"
      "get_class_for_package_name E fs (spec_name (heap s a)) (s\<lparr>instances := evicted E a new s\<rparr>) = (Inr cls, s2)"
      "cls (heap s a) = Constructed pkg"
      "s1 = s2\<lparr>heap := (heap s)(next_addr s := heap s a), next_addr := Suc (next_addr s),
              next_oid := Suc (next_oid s),
              instances := evicted E a new s @ [(next_addr s, (next_oid s, pkg))]\<rparr>"
      "r = (case dict_get E (heap s1) (instances s1) a of None \<Rightarrow> Inl KeyError | Some inst \<Rightarrow> Inr inst)"
proof (cases "spec_virtual (heap s a)")
  case True
  from assms[unfolded get_virtual[OF True]]
  have "r = Inl (UnknownPackageError (spec_name (heap s a)))" "s1 = s" by auto
  with True show ?thesis by (rule virtual)
next
  case nv: False
  let ?s' = "s\<lparr>instances := evicted E a new s\<rparr>"
  show ?thesis
  proof (cases "dict_get E (heap s) (evicted E a new s) a")
    case (Some inst)
    from assms[unfolded get_cached[OF nv Some]] have "r = Inr inst" "s1 = ?s'" by auto
    with nv Some show ?thesis by (rule hit)
  next
    case None
    obtain rc s2 where gc: "get_class_for_package_name E fs (spec_name (heap s a)) ?s' = (rc, s2)"
      by (cases "get_class_for_package_name E fs (spec_name (heap s a)) ?s'")
    note eq = assms[unfolded get_miss[OF nv None gc]]
    show ?thesis
    proof (cases rc)
      case (Inl e)
      with eq have "r = Inl e" "s1 = s2" by auto
      with nv None gc Inl show ?thesis by (intro no_class[of e]) simp_all
    next
      case (Inr cls)
      show ?thesis
      proof (cases "cls (heap s a)")
        case (Raised reason)
        with eq Inr have "r = Inl (FailedConstructorError (spec_name (heap s a)) reason)" "s1 = s2"
          by auto
        with nv None gc Inr Raised show ?thesis by (intro raised[of cls reason]) simp_all
      next
        case (Exited msg)
        with eq Inr have "r = Inl (Die msg)" "s1 = s2" by auto
        with nv None gc Inr Exited show ?thesis by (intro exited[of cls msg]) simp_all
      next
        case (Constructed pkg)
        let ?s3 = "s2\<lparr>heap := (heap s)(next_addr s := heap s a), next_addr := Suc (next_addr s),
              next_oid := Suc (next_oid s),
              instances := evicted E a new s @ [(next_addr s, (next_oid s, pkg))]\<rparr>"
        from eq Inr Constructed
        have "(case dict_get E (heap ?s3) (instances ?s3) a of
                 None \<Rightarrow> (Inl KeyError, ?s3) | Some inst \<Rightarrow> (Inr inst, ?s3)) = (r, s1)"
          by (simp add: Let_def)
        then have "s1 = ?s3 \<and> r = (case dict_get E (heap ?s3) (instances ?s3) a of None \<Rightarrow> Inl KeyError | Some inst \<Rightarrow> Inr inst)"
          by (cases "dict_get E (heap ?s3) (instances ?s3) a") auto
        then have s1: "s1 = ?s3"
          and r: "r = (case dict_get E (heap s1) (instances s1) a of None \<Rightarrow> Inl KeyError | Some inst \<Rightarrow> Inr inst)"
          by simp_all
        from nv None gc[unfolded Inr] Constructed s1 r show ?thesis by (rule constructed)
      qed
    qed
  qed
qed

lemma evicted_subset: "set (evicted E a new s) \<subseteq> set (instances s)"
  using set_dict_del[of "key_match E (heap s) a" "instances s"] by (auto simp: evicted_def)

lemma evicted_distinct:
  "distinct (map f (instances s)) \<Longrightarrow> distinct (map f (evicted E a new s))"
  by (simp add: evicted_def distinct_dict_del)

lemma evicted_plain [simp]: "evicted E a False s = instances s"
  by (simp add: evicted_def)

lemma dict_get_None:
  "dict_get E hp d a = None \<longleftrightarrow> (\<forall>e \<in> set d. Spec_cmp_key (hp (fst e)) \<noteq> Spec_cmp_key (hp a))"
  by (induction d) (auto simp: dict_get_def key_match_iff)

lemma wf_evicted: "well_formed s \<Longrightarrow> well_formed (s\<lparr>instances := evicted E a new s\<rparr>)"
  using evicted_subset[of E a new s]
    evicted_distinct[of "\<lambda>e. fst (snd e)" s E a new]
    evicted_distinct[of "\<lambda>e. Spec_cmp_key (heap s (fst e))" s E a new]
  by (auto simp: well_formed_def)

lemma wf_frame:
  "heap s' = heap s \<Longrightarrow> next_addr s' = next_addr s \<Longrightarrow> next_oid s' = next_oid s \<Longrightarrow>
   instances s' = instances s \<Longrightarrow> well_formed s' = well_formed s"
  by (simp add: well_formed_def)

lemma wf_insert:
  assumes wf: "well_formed s" and none: "dict_get E (heap s) (instances s) a = None"
  shows "well_formed (s\<lparr>heap := (heap s)(next_addr s := heap s a), next_addr := Suc (next_addr s),
              next_oid := Suc (next_oid s),
              instances := instances s @ [(next_addr s, (next_oid s, pkg))]\<rparr>)"
proof -
  let ?hp = "(heap s)(next_addr s := heap s a)"
  from wf have b: "\<forall>e \<in> set (instances s). fst e < next_addr s \<and> fst (snd e) < next_oid s"
    by (simp add: well_formed_def)
  then have keys: "map (\<lambda>e. Spec_cmp_key (?hp (fst e))) (instances s) =
                   map (\<lambda>e. Spec_cmp_key (heap s (fst e))) (instances s)"
    by (intro map_cong) auto
  have fresh': "Spec_cmp_key (?hp (next_addr s)) = Spec_cmp_key (heap s a)" by simp
  from none have fresh: "Spec_cmp_key (heap s a) \<notin> (\<lambda>e. Spec_cmp_key (heap s (fst e))) ` set (instances s)"
    by (auto simp: dict_get_None)
  from b have o: "next_oid s \<notin> (\<lambda>e. fst (snd e)) ` set (instances s)" by auto
  from wf have d1: "distinct (map (\<lambda>e. fst (snd e)) (instances s))"
    and d2: "distinct (map (\<lambda>e. Spec_cmp_key (heap s (fst e))) (instances s))"
    by (simp_all add: well_formed_def)
  have "\<forall>e \<in> set (instances s @ [(next_addr s, (next_oid s, pkg))]).
          fst e < Suc (next_addr s) \<and> fst (snd e) < Suc (next_oid s)"
    using b by (auto simp: less_Suc_eq)
  moreover have "distinct (map (\<lambda>e. fst (snd e)) (instances s @ [(next_addr s, (next_oid s, pkg))]))"
    using d1 o by simp
  moreover have "distinct (map (\<lambda>e. Spec_cmp_key (?hp (fst e))) (instances s @ [(next_addr s, (next_oid s, pkg))]))"
    unfolding map_append distinct_append keys using d2 fresh fresh' by (simp del: fun_upd_apply)
  ultimately show ?thesis by (simp add: well_formed_def)
qed

lemma get_Inr_lookup:
  assumes "get E fs a new s = (Inr p, s1)"
  shows "dict_get E (heap s1) (instances s1) a = Some p \<and> \<not> spec_virtual (heap s a)"
  using assms
proof (cases rule: get_cases)
  case (hit inst)
  then show ?thesis by simp
next
  case (constructed cls s2 pkg)
  then show ?thesis by (auto split: option.splits)
qed simp_all

lemma get_hit:
  assumes "\<not> spec_virtual (heap s b)" and "dict_get E (heap s) (instances s) b = Some p"
  shows "get E fs b False s = (Inr p, s)"
proof -
  from assms(2) have c: "dict_contains E (heap s) (instances s) b" by (simp add: dict_contains_def)
  show ?thesis using assms c by (simp add: get_def)
qed

lemma get_wf:
  assumes wf: "well_formed s" and g: "get E fs a new s = (r, s1)"
  shows "well_formed s1 \<and> next_addr s \<le> next_addr s1 \<and> (\<forall>x. x < next_addr s \<longrightarrow> heap s1 x = heap s x)"
proof -
  let ?s' = "s\<lparr>instances := evicted E a new s\<rparr>"
  have wf': "well_formed ?s'" using wf by (rule wf_evicted)
  from g show ?thesis
  proof (cases rule: get_cases)
    case virtual
    with wf show ?thesis by simp
  next
    case (hit inst)
    with wf' show ?thesis by simp
  next
    case (no_class e)
    from get_class_frame[OF no_class(3)] wf' show ?thesis by (simp add: wf_frame[of s1 ?s'])
  next
    case (raised cls reason)
    from get_class_frame[OF raised(3)] wf' show ?thesis by (simp add: wf_frame[of s1 ?s'])
  next
    case (exited cls msg)
    from get_class_frame[OF exited(3)] wf' show ?thesis by (simp add: wf_frame[of s1 ?s'])
  next
    case (constructed cls s2 pkg)
    from constructed(2) have none: "dict_get E (heap ?s') (instances ?s') a = None" by simp
    note w = wf_insert[OF wf' none, of pkg]
    have "well_formed s1 = well_formed (?s'\<lparr>heap := (heap ?s')(next_addr ?s' := heap ?s' a), next_addr := Suc (next_addr ?s'),
              next_oid := Suc (next_oid ?s'),
              instances := instances ?s' @ [(next_addr ?s', (next_oid ?s', pkg))]\<rparr>)"
      using constructed(5) by (intro wf_frame) simp_all
    with w have "well_formed s1" by simp
    with constructed(5) show ?thesis by simp
  qed
qed

text \<open>A newly built instance is the one the final lookup returns.\<close>
lemma get_constructed_lookup:
  assumes wf: "well_formed s" and al: "a < next_addr s"
    and none: "dict_get E (heap s) d a = None" and sub: "set d \<subseteq> set (instances s)"
  shows "dict_get E ((heap s)(next_addr s := heap s a)) (d @ [(next_addr s, v)]) a = Some v"
proof -
  let ?hp = "(heap s)(next_addr s := heap s a)"
  from wf sub have "\<forall>e \<in> set d. fst e < next_addr s" by (auto simp: well_formed_def)
  then have keys: "\<forall>e \<in> set d. Spec_cmp_key (?hp (fst e)) = Spec_cmp_key (heap s (fst e))"
    by auto
  have "Spec_cmp_key (?hp a) = Spec_cmp_key (heap s a)" using al by simp
  have "dict_get E ?hp d a = dict_get E (heap s) d a"
    using keys \<open>Spec_cmp_key (?hp a) = Spec_cmp_key (heap s a)\<close> by (rule dict_get_cong)
  with none have "dict_get E ?hp d a = None" by simp
  then show ?thesis
    by (simp add: dict_get_append) (simp add: dict_get_def key_match_iff)
qed

lemma get_keys:
  assumes g: "get E fs a new s = (r, s1)"
  shows "fst ` set (instances s1) \<subseteq> fst ` set (instances s) \<union> {next_addr s}"
  using g
proof (cases rule: get_cases)
  case virtual
  then show ?thesis by auto
next
  case (hit inst)
  with evicted_subset[of E a new s] show ?thesis by auto
next
  case (no_class e)
  from get_class_frame[OF no_class(3)] evicted_subset[of E a new s] show ?thesis by auto
next
  case (raised cls reason)
  from get_class_frame[OF raised(3)] evicted_subset[of E a new s] show ?thesis by auto
next
  case (exited cls msg)
  from get_class_frame[OF exited(3)] evicted_subset[of E a new s] show ?thesis by auto
next
  case (constructed cls s2 pkg)
  with evicted_subset[of E a new s] show ?thesis by auto
qed

lemma distinct_map_eq:
  "distinct (map f xs) \<Longrightarrow> x \<in> set xs \<Longrightarrow> y \<in> set xs \<Longrightarrow> f x = f y \<Longrightarrow> x = y"
  by (auto simp: distinct_map dest: inj_onD)

lemma get_same_identity:
  assumes ga: "get E fs a new s = (Inr p, s1)"
    and nv: "\<not> spec_virtual (heap s1 b)"
    and eq: "ko_eq Spec_cmp_key (heap s1 a) (Some (heap s1 b))"
  shows "get E fs' b False s1 = (Inr p, s1)"
proof -
  from get_Inr_lookup[OF ga] have l: "dict_get E (heap s1) (instances s1) a = Some p" by simp
  from eq have e: "Spec_cmp_key (heap s1 b) = Spec_cmp_key (heap s1 a)" by (simp add: ko_eq_def)
  have "dict_get E (heap s1) (instances s1) b = dict_get E (heap s1) (instances s1) a"
    by (rule dict_get_cong) (simp_all add: e)
  with l have "dict_get E (heap s1) (instances s1) b = Some p" by simp
  from get_hit[OF nv this] show ?thesis .
qed

lemma get_other_identity:
  assumes wf: "well_formed s" and al: "a < next_addr s" and ga: "get E fs a new s = (Inr p, s1)"
    and bl: "b < next_addr s1"
    and ne: "\<not> ko_eq Spec_cmp_key (heap s1 a) (Some (heap s1 b))"
    and gb: "get E fs' b False s1 = (Inr q, s2)"
  shows "fst q \<noteq> fst p \<and> dict_get E (heap s2) (instances s2) a = Some p \<and>
         dict_get E (heap s2) (instances s2) b = Some q"
proof -
  from get_wf[OF wf ga] have wf1: "well_formed s1" and le: "next_addr s \<le> next_addr s1" by simp_all
  from al le have al1: "a < next_addr s1" by simp
  from get_Inr_lookup[OF ga] have la: "dict_get E (heap s1) (instances s1) a = Some p" by simp
  from dict_get_Some_mem[OF la] obtain ka where
    ka: "(ka, p) \<in> set (instances s1)" "Spec_cmp_key (heap s1 ka) = Spec_cmp_key (heap s1 a)" by blast
  from ne have ne': "Spec_cmp_key (heap s1 a) \<noteq> Spec_cmp_key (heap s1 b)" by (simp add: ko_eq_def)
  from get_Inr_lookup[OF gb] have lb: "dict_get E (heap s2) (instances s2) b = Some q" by simp
  from gb show ?thesis
  proof (cases rule: get_cases)
    case (hit inst)
    then have s2: "s2 = s1" and q: "dict_get E (heap s1) (instances s1) b = Some q" by simp_all
    from dict_get_Some_mem[OF q] obtain kb where
      kb: "(kb, q) \<in> set (instances s1)" "Spec_cmp_key (heap s1 kb) = Spec_cmp_key (heap s1 b)" by blast
    have "fst q \<noteq> fst p"
    proof
      assume "fst q = fst p"
      moreover from wf1 have "distinct (map (\<lambda>e. fst (snd e)) (instances s1))" by (simp add: well_formed_def)
      ultimately have "(ka, p) = (kb, q)" using ka(1) kb(1)
        by (intro distinct_map_eq[of "\<lambda>e. fst (snd e)" "instances s1"]) simp_all
      with ka(2) kb(2) ne' show False by simp
    qed
    with la lb s2 show ?thesis by simp
  next
    case (constructed cls s3 pkg)
    have none: "dict_get E (heap s1) (instances s1) b = None" using constructed(2) by simp
    have hp2: "heap s2 = (heap s1)(next_addr s1 := heap s1 b)"
      and in2: "instances s2 = instances s1 @ [(next_addr s1, (next_oid s1, pkg))]"
      using constructed(5) by simp_all
    from get_constructed_lookup[OF wf1 bl none subset_refl, of "(next_oid s1, pkg)"] lb hp2 in2
    have q: "q = (next_oid s1, pkg)" by simp
    from wf1 ka(1) have "fst p < next_oid s1" by (auto simp: well_formed_def)
    with q have d: "fst q \<noteq> fst p" by simp
    from wf1 have "\<forall>e \<in> set (instances s1). fst e < next_addr s1" by (auto simp: well_formed_def)
    then have keys: "\<forall>e \<in> set (instances s1). Spec_cmp_key (heap s2 (fst e)) = Spec_cmp_key (heap s1 (fst e))"
      using hp2 by auto
    have "Spec_cmp_key (heap s2 a) = Spec_cmp_key (heap s1 a)" using al1 hp2 by simp
    have "dict_get E (heap s2) (instances s1) a = dict_get E (heap s1) (instances s1) a"
      using keys \<open>Spec_cmp_key (heap s2 a) = Spec_cmp_key (heap s1 a)\<close> by (rule dict_get_cong)
    with la have "dict_get E (heap s2) (instances s1) a = Some p" by simp
    then have "dict_get E (heap s2) (instances s2) a = Some p" by (simp add: in2 dict_get_append)
    with d lb show ?thesis by simp
  qed simp_all
qed

lemma get_insulated:
  assumes wf: "well_formed s" and al: "a < next_addr s" and ga: "get E fs a new s = (Inr p, s1)"
    and nk: "a \<notin> fst ` set (instances s)"
    and ba: "b \<noteq> a" and nv: "\<not> spec_virtual (heap s1 b)"
    and eq: "ko_eq Spec_cmp_key (heap s a) (Some (heap s1 b))"
  shows "get E fs' b False (s1\<lparr>heap := (heap s1)(a := v)\<rparr>) = (Inr p, s1\<lparr>heap := (heap s1)(a := v)\<rparr>)"
proof -
  let ?s' = "s1\<lparr>heap := (heap s1)(a := v)\<rparr>"
  from get_wf[OF wf ga] al have h: "heap s1 a = heap s a" by simp
  from get_keys[OF ga] nk al have "a \<notin> fst ` set (instances s1)" by auto
  then have keys: "\<forall>e \<in> set (instances s1). Spec_cmp_key (heap ?s' (fst e)) = Spec_cmp_key (heap s1 (fst e))"
    by auto
  from eq ba h have "Spec_cmp_key (heap ?s' b) = Spec_cmp_key (heap s1 a)" by (simp add: ko_eq_def)
  have "dict_get E (heap ?s') (instances s1) b = dict_get E (heap s1) (instances s1) a"
    using keys \<open>Spec_cmp_key (heap ?s' b) = Spec_cmp_key (heap s1 a)\<close> by (rule dict_get_cong)
  with get_Inr_lookup[OF ga] have l: "dict_get E (heap ?s') (instances ?s') b = Some p" by simp
  from nv ba have "\<not> spec_virtual (heap ?s' b)" by simp
  from get_hit[OF this l] show ?thesis .
qed


subsection \<open>failed construction, purge\<close>

lemma dict_del_removes:
  "distinct (map (\<lambda>e. Spec_cmp_key (hp (fst e))) d) \<Longrightarrow>
   dict_get E hp (dict_del (key_match E hp a) d) a = None"
proof (induction d)
  case Nil
  then show ?case by (simp add: dict_get_def)
next
  case (Cons e d)
  show ?case
  proof (cases "key_match E hp a (fst e)")
    case True
    with Cons.prems have "\<forall>x \<in> set d. Spec_cmp_key (hp (fst x)) \<noteq> Spec_cmp_key (hp a)"
      by (force simp: key_match_iff image_iff)
    with True show ?thesis by (simp add: dict_get_None)
  next
    case False
    with Cons show ?thesis by (simp add: dict_get_def)
  qed
qed

lemma evicted_new_None:
  assumes "well_formed s"
  shows "dict_get E (heap s) (evicted E a True s) a = None"
proof (cases "dict_contains E (heap s) (instances s) a")
  case True
  with assms show ?thesis by (simp add: evicted_def well_formed_def dict_del_removes)
next
  case False
  then have "dict_get E (heap s) (instances s) a = None"
    by (cases "dict_get E (heap s) (instances s) a") (simp_all add: dict_contains_Some)
  with False show ?thesis by (simp add: evicted_def)
qed

lemma load_class_instances:
  "load_class E fs n (s\<lparr>instances := d\<rparr>) =
     (case load_class E fs n s of (r, s') \<Rightarrow> (r, s'\<lparr>instances := d\<rparr>))"
  by (simp add: load_class_def filename_for_package_name_def dirname_for_package_name_def Let_def
      split: sum.splits load_result.splits option.splits attribute.splits)

lemma get_class_instances:
  "get_class_for_package_name E fs n (s\<lparr>instances := d\<rparr>) =
     (case get_class_for_package_name E fs n s of (r, s') \<Rightarrow> (r, s'\<lparr>instances := d\<rparr>))"
  by (simp add: get_class_for_package_name_def memoized_def load_class_instances
      split: option.splits prod.splits sum.splits)

lemma get_class_stores:
  assumes "get_class_for_package_name E fs n s = (Inr c, s1)"
  shows "map_of (get_class_cache s1) n = Some c"
proof -
  obtain r0 s0 where l: "load_class E fs n s = (r0, s0)" by (cases "load_class E fs n s")
  from load_class_frame[OF l] have "get_class_cache s0 = get_class_cache s" by auto
  with assms l show ?thesis
    by (auto simp: get_class_for_package_name_def memoized_def split: option.splits sum.splits)
qed

lemma get_class_hit:
  "map_of (get_class_cache s) n = Some c \<Longrightarrow> get_class_for_package_name E fs n s = (Inr c, s)"
  by (simp add: get_class_for_package_name_def memoized_def)


subsection \<open>all_package_names and providers_for\<close>

lemma all_package_names_frame:
  assumes "all_package_names fs s = (r, s')"
  shows "s' = s \<or> (\<exists>names. r = Inr names \<and> all_package_names_cache s = [] \<and>
           s' = s\<lparr>all_package_names_cache := [((), names)]\<rparr>)"
proof (cases "all_package_names_cache s")
  case Nil
  with assms show ?thesis
    by (auto simp: all_package_names_def memoized_def scan_package_names_def split: sum.splits)
next
  case (Cons e c)
  then have "map_of (all_package_names_cache s) () = Some (snd e)" by (cases e) simp
  with assms show ?thesis by (simp add: all_package_names_def memoized_def)
qed

lemma all_package_names_memo:
  assumes "all_package_names fs s = (Inr names, s')"
  shows "all_package_names fs' s' = (Inr names, s')"
proof (cases "all_package_names_cache s")
  case Nil
  with assms show ?thesis
    by (auto simp: all_package_names_def memoized_def scan_package_names_def split: sum.splits)
next
  case (Cons e c)
  then have "map_of (all_package_names_cache s) () = Some (snd e)" by (cases e) simp
  with assms show ?thesis by (auto simp: all_package_names_def memoized_def)
qed

lemma providers_for_built:
  assumes "provider_index s = Some idx"
  shows "providers_for E fs v s =
     (if index_providers_for E idx v = []
      then Inl (UnknownPackageError (''No such virtual package: '' @ spec_str E v))
      else Inr (index_providers_for E idx v), s)"
  using assms by (simp add: providers_for_def Let_def)

lemma providers_for_unbuilt:
  assumes "provider_index s = None" and "all_package_names fs s = (rn, s1)"
  shows "providers_for E fs v s =
     (case rn of
        Inl e \<Rightarrow> (Inl e, s1)
      | Inr names \<Rightarrow>
          (case ProviderIndex E names of
             Inl e \<Rightarrow> (Inl e, s1)
           | Inr idx \<Rightarrow>
               (if index_providers_for E idx v = []
                then Inl (UnknownPackageError (''No such virtual package: '' @ spec_str E v))
                else Inr (index_providers_for E idx v),
                s1\<lparr>provider_index := Some idx, index_builds := Suc (index_builds s1)\<rparr>)))"
  using assms by (simp add: providers_for_def Let_def split: sum.splits)

lemma providers_for_result:
  assumes "providers_for E fs v s = (r, s')"
  shows "(case provider_index s' of
            None \<Rightarrow> (\<exists>e. r = Inl e)
          | Some idx \<Rightarrow>
              r = (if index_providers_for E idx v = []
                   then Inl (UnknownPackageError (''No such virtual package: '' @ spec_str E v))
                   else Inr (index_providers_for E idx v)))"
proof (cases "provider_index s")
  case (Some idx)
  with assms show ?thesis by (auto simp: providers_for_built)
next
  case None
  obtain rn s1 where a: "all_package_names fs s = (rn, s1)" by (cases "all_package_names fs s")
  from all_package_names_frame[OF a] None have "provider_index s1 = None" by auto
  with assms show ?thesis
    unfolding providers_for_unbuilt[OF None a] by (auto split: sum.splits)
qed

lemma providers_for_frame:
  assumes "providers_for E fs v s = (r, s')"
  shows "heap s' = heap s \<and> next_addr s' = next_addr s \<and> next_oid s' = next_oid s \<and>
         instances s' = instances s \<and> get_class_cache s' = get_class_cache s \<and>
         load_log s' = load_log s \<and>
         (provider_index s' = provider_index s \<and> index_builds s' = index_builds s \<or>
          provider_index s = None \<and> provider_index s' \<noteq> None \<and>
          index_builds s' = Suc (index_builds s))"
proof (cases "provider_index s")
  case (Some idx)
  with assms show ?thesis by (auto simp: providers_for_built)
next
  case None
  obtain rn s1 where a: "all_package_names fs s = (rn, s1)" by (cases "all_package_names fs s")
  from all_package_names_frame[OF a] assms None show ?thesis
    unfolding providers_for_unbuilt[OF None a] by (auto split: sum.splits)
qed


subsection \<open>Invariants of the lifetime\<close>

lemma index_inv_frame:
  "heap s' = heap s \<Longrightarrow> next_addr s' = next_addr s \<Longrightarrow> next_oid s' = next_oid s \<Longrightarrow>
   instances s' = instances s \<Longrightarrow> provider_index s' = provider_index s \<Longrightarrow>
   index_builds s' = index_builds s \<Longrightarrow> index_inv s' = index_inv s"
  by (simp add: index_inv_def wf_frame[of s' s])

lemma get_frame_index:
  assumes g: "get E fs a new s = (r, s1)"
  shows "provider_index s1 = provider_index s \<and> index_builds s1 = index_builds s"
  using g
proof (cases rule: get_cases)
  case (no_class e)
  from get_class_frame[OF no_class(3)] show ?thesis by simp
next
  case (raised cls reason)
  from get_class_frame[OF raised(3)] show ?thesis by simp
next
  case (exited cls msg)
  from get_class_frame[OF exited(3)] show ?thesis by simp
next
  case (constructed cls s2 pkg)
  from get_class_frame[OF constructed(3)] constructed(5) show ?thesis by simp
qed simp_all

lemma get_index_inv:
  assumes "index_inv s" and "get E fs a new s = (r, s1)"
  shows "index_inv s1"
  using assms get_wf[OF _ assms(2)] get_frame_index[OF assms(2)] by (simp add: index_inv_def)

lemma wf_alloc:
  assumes "well_formed s"
  shows "well_formed (s\<lparr>heap := (heap s)(next_addr s := v), next_addr := Suc (next_addr s)\<rparr>)"
proof -
  from assms have b: "\<forall>e \<in> set (instances s). fst e < next_addr s" by (simp add: well_formed_def)
  then have m: "map (\<lambda>e. Spec_cmp_key (((heap s)(next_addr s := v)) (fst e))) (instances s) =
             map (\<lambda>e. Spec_cmp_key (heap s (fst e))) (instances s)"
    by (intro map_cong) auto
  from b have "\<forall>e \<in> set (instances s). fst e < Suc (next_addr s)" by (auto simp: less_Suc_eq)
  with assms show ?thesis unfolding well_formed_def by (simp add: m del: fun_upd_apply)
qed

lemma wf_mutate:
  assumes "well_formed s" and "a \<notin> fst ` set (instances s)"
  shows "well_formed (s\<lparr>heap := (heap s)(a := v)\<rparr>)"
proof -
  from assms(2) have m: "map (\<lambda>e. Spec_cmp_key (((heap s)(a := v)) (fst e))) (instances s) =
             map (\<lambda>e. Spec_cmp_key (heap s (fst e))) (instances s)"
    by (intro map_cong) auto
  from assms(1) show ?thesis unfolding well_formed_def by (simp add: m del: fun_upd_apply)
qed

lemma get_by_name_index_inv:
  assumes "index_inv s" and "get_by_name E fs n s = (r, s1)"
  shows "index_inv s1"
proof -
  let ?s = "s\<lparr>heap := (heap s)(next_addr s := Spec E n), next_addr := Suc (next_addr s)\<rparr>"
  from assms(1) wf_alloc[of s "Spec E n"] have "index_inv ?s" by (simp add: index_inv_def)
  moreover from assms(2) have "get E fs (next_addr s) False ?s = (r, s1)"
    by (simp add: get_by_name_def autospec_def)
  ultimately show ?thesis by (rule get_index_inv)
qed

lemma graph_packages_index_inv:
  "index_inv s \<Longrightarrow> graph_packages E fs names deps out s = (r, out', s') \<Longrightarrow> index_inv s'"
proof (induction names arbitrary: deps out s)
  case Nil
  then show ?case by simp
next
  case (Cons n names)
  obtain r1 s1 where g: "get_by_name E fs n s = (r1, s1)" by (cases "get_by_name E fs n s")
  from get_by_name_index_inv[OF Cons.prems(1) g] have i1: "index_inv s1" .
  show ?case
  proof (cases r1)
    case (Inl e)
    with Cons.prems(2) g i1 show ?thesis by simp
  next
    case (Inr inst)
    obtain oid pkg where inst: "inst = (oid, pkg)" by (cases inst)
    from Cons.prems(2) g Inr inst
    have "graph_packages E fs names (deps @ package_deps pkg) (out @ [node_line pkg]) s1 = (r, out', s')"
      by simp
    from Cons.IH[OF i1 this] show ?thesis .
  qed
qed

lemma all_package_names_index_inv:
  assumes "index_inv s" and "all_package_names fs s = (r, s')"
  shows "index_inv s'"
proof -
  from all_package_names_frame[OF assms(2)]
  have "heap s' = heap s \<and> next_addr s' = next_addr s \<and> next_oid s' = next_oid s \<and>
        instances s' = instances s \<and> provider_index s' = provider_index s \<and>
        index_builds s' = index_builds s" by auto
  then have "index_inv s' = index_inv s" by (intro index_inv_frame) simp_all
  with assms(1) show ?thesis by simp
qed

lemma graph_dependencies_index_inv:
  assumes "index_inv s" and "graph_dependencies E fs s = (r, out, s')"
  shows "index_inv s'"
proof -
  obtain rn s1 where a: "all_package_names fs s = (rn, s1)" by (cases "all_package_names fs s")
  from all_package_names_index_inv[OF assms(1) a] have i1: "index_inv s1" .
  show ?thesis
  proof (cases rn)
    case (Inl e)
    with assms(2) a i1 show ?thesis by (simp add: graph_dependencies_def)
  next
    case (Inr names)
    obtain rg og sg where g: "graph_packages E fs names [] graph_header s1 = (rg, og, sg)"
      by (cases "graph_packages E fs names [] graph_header s1")
    from graph_packages_index_inv[OF i1 g] have "index_inv sg" .
    with assms(2) a Inr g show ?thesis
      by (cases rg) (auto simp: graph_dependencies_def)
  qed
qed

lemma delete_index_inv:
  assumes "index_inv s" and "delete E a s = (r, s')"
  shows "index_inv s'"
proof -
  from assms(1) have "well_formed s" by (simp add: index_inv_def)
  from wf_evicted[OF this, of E a True] assms show ?thesis
    by (cases "dict_contains E (heap s) (instances s) a")
       (auto simp: delete_def index_inv_def evicted_def)
qed

lemma reachable_index_inv: "reachable E s \<Longrightarrow> index_inv s"
proof (induction rule: reachable.induct)
  case (r_init r hp n)
  then show ?case by (simp add: index_inv_def well_formed_def PackageDB_def)
next
  case (r_alloc s v)
  with wf_alloc[of s v] show ?case by (simp add: index_inv_def)
next
  case (r_mutate s a v)
  with wf_mutate[of s a v] show ?case by (simp add: index_inv_def)
next
  case (r_get s fs a new r1 s')
  then show ?case by (auto intro: get_index_inv)
next
  case (r_delete s a r2 s')
  then show ?case by (auto intro: delete_index_inv)
next
  case (r_purge s)
  then show ?case by (simp add: index_inv_def well_formed_def purge_def)
next
  case (r_providers_for s fs v' r3 s')
  from providers_for_frame[OF r_providers_for(2)]
  have "well_formed s' = well_formed s" by (intro wf_frame) simp_all
  with providers_for_frame[OF r_providers_for(2)] r_providers_for(3)
  show ?case by (auto simp: index_inv_def)
next
  case (r_all_package_names s fs r4 s')
  then show ?case by (auto intro: all_package_names_index_inv)
next
  case (r_get_class s fs pkg r5 s')
  from get_class_frame[OF r_get_class(2)] r_get_class(3)
  show ?case by (simp add: index_inv_frame[of s' s])
next
  case (r_graph_dependencies s fs r6 out s')
  then show ?case by (auto intro: graph_dependencies_index_inv)
qed

section \<open>Evaluation of the examples\<close>

lemma stat_fuel_None: "map_of fs p = None \<Longrightarrow> stat_fuel n fs p = None"
  by (cases n) simp_all

lemma stat_fuel_File: "map_of fs p = Some File \<Longrightarrow> stat_fuel n fs p = Some File"
  by (cases n) simp_all

lemma stat_fuel_Dir: "map_of fs p = Some Dir \<Longrightarrow> stat_fuel n fs p = Some Dir"
  by (cases n) simp_all

lemmas fs_eval = stat_def exists_def isfile_def isdir_def islink_def stat_fuel_None stat_fuel_File
  stat_fuel_Dir join_path_def package_file_name_def

lemmas ex_defs = ex_fs_def ex_spec_def ex_pkgA_def ex_pkgB_def ex_classA_def ex_classB_def
  ex_load_source_def ex_env_def ex_heap_def ex_db_def PackageDB_def

lemmas registry_eval = get_def dict_contains_def dict_get_def get_class_for_package_name_def
  memoized_def load_class_def filename_for_package_name_def dirname_for_package_name_def
  imported_packages_module_def key_match_def ko_eq_def ko_hash_def Spec_cmp_key_def Let_def

section \<open>Claims about the registry\<close>

text \<open>
  C10.  For every class decorated with \<open>key_ordering\<close> (given by its \<open>_cmp_key\<close>; this
  covers \<open>HashableMap_cmp_key\<close> and \<open>Spec_cmp_key\<close>), the generated equality and hash
  are both functions of the comparison key: values that compare equal have equal hashes, and
  no value compares equal to \<open>None\<close>.
\<close>
theorem key_ordering_eq_hash:
  assumes "key_ordering hash (Some cmp_key) = Inr M"
  shows "(\<forall>x y. eq_method M x (Some y) \<longrightarrow> hash_method M x = hash_method M y) \<and>
         (\<forall>x. \<not> eq_method M x None) \<and>
         (\<forall>x y. eq_method M x (Some y) \<longleftrightarrow> cmp_key x = cmp_key y) \<and>
         (\<forall>x. hash_method M x = hash (cmp_key x))"
proof -
  from assms have M: "eq_method M = ko_eq cmp_key" "hash_method M = ko_hash hash cmp_key"
    by (auto simp: key_ordering_def)
  show ?thesis unfolding M by (simp add: ko_eq_def ko_hash_def)
qed

theorem key_ordering_eq_hash_witness:
  "(case key_ordering (\<lambda>k. int (sum_list k)) (Some (HashableMap_cmp_key :: (string \<times> nat) list \<Rightarrow> nat list)) of
      Inl e \<Rightarrow> False
    | Inr M \<Rightarrow> eq_method M [(''a'', 2), (''b'', 1)] (Some [(''c'', 1), (''d'', 2)]) \<and>
               hash_method M [(''a'', 2), (''b'', 1)] = hash_method M [(''c'', 1), (''d'', 2)] \<and>
               \<not> eq_method M [(''a'', 2), (''b'', 1)] None)"
proof -
  let ?M = "\<lparr> eq_method = ko_eq HashableMap_cmp_key, lt_method = ko_lt HashableMap_cmp_key,
              le_method = ko_le HashableMap_cmp_key, ne_method = ko_ne HashableMap_cmp_key,
              gt_method = ko_gt HashableMap_cmp_key, ge_method = ko_ge HashableMap_cmp_key,
              hash_method = ko_hash (\<lambda>k. int (sum_list k)) (HashableMap_cmp_key :: (string \<times> nat) list \<Rightarrow> nat list) \<rparr>"
  have k: "key_ordering (\<lambda>k. int (sum_list k)) (Some (HashableMap_cmp_key :: (string \<times> nat) list \<Rightarrow> nat list)) = Inr ?M"
    by (simp add: key_ordering_def)
  have e: "eq_method ?M [(''a'', 2), (''b'', 1)] (Some [(''c'', 1), (''d'', 2)])"
    by (simp add: ko_eq_def HashableMap_cmp_key_def)
  from key_ordering_eq_hash[OF k] e show ?thesis
    unfolding k by simp
qed


text \<open>
  C1.  After \<open>get\<close> has returned an instance for the identity object \<open>a\<close>: (1) \<open>get\<close>
  on any non-virtual identity equal to \<open>a\<close> returns the same instance and changes nothing,
  whatever the file system holds by then; (2) \<open>get\<close> on an identity that is not equal returns
  an instance that is a different object, also when the names agree, and both entries are in the
  cache afterwards; (3) the cache key is a copy: it is not the caller's object, and after any
  later change of the caller's object \<open>a\<close>, an identity with the value \<open>a\<close> had is still
  served the same instance.
\<close>
theorem get_one_instance_per_identity:
  assumes wf: "well_formed s" and al: "a < next_addr s" and ga: "get E fs a new s = (Inr p, s1)"
  shows "(\<forall>b fs'. \<not> spec_virtual (heap s1 b) \<and> ko_eq Spec_cmp_key (heap s1 a) (Some (heap s1 b)) \<longrightarrow>
            get E fs' b False s1 = (Inr p, s1)) \<and>
         (\<forall>b fs' q s2. b < next_addr s1 \<and> \<not> ko_eq Spec_cmp_key (heap s1 a) (Some (heap s1 b)) \<and>
            get E fs' b False s1 = (Inr q, s2) \<longrightarrow>
            fst q \<noteq> fst p \<and> dict_get E (heap s2) (instances s2) a = Some p \<and>
            dict_get E (heap s2) (instances s2) b = Some q) \<and>
         (a \<notin> fst ` set (instances s) \<longrightarrow>
            a \<notin> fst ` set (instances s1) \<and>
            (\<forall>v b fs'. b \<noteq> a \<and> \<not> spec_virtual (heap s1 b) \<and>
               ko_eq Spec_cmp_key (heap s a) (Some (heap s1 b)) \<longrightarrow>
               get E fs' b False (s1\<lparr>heap := (heap s1)(a := v)\<rparr>) =
                 (Inr p, s1\<lparr>heap := (heap s1)(a := v)\<rparr>)))"
proof (intro conjI allI impI)
  fix b fs'
  assume "\<not> spec_virtual (heap s1 b) \<and> ko_eq Spec_cmp_key (heap s1 a) (Some (heap s1 b))"
  then show "get E fs' b False s1 = (Inr p, s1)"
    using get_same_identity[OF ga] by blast
next
  fix b fs' q s2
  assume h: "b < next_addr s1 \<and> \<not> ko_eq Spec_cmp_key (heap s1 a) (Some (heap s1 b)) \<and>
            get E fs' b False s1 = (Inr q, s2)"
  from h have 1: "b < next_addr s1" and 2: "\<not> ko_eq Spec_cmp_key (heap s1 a) (Some (heap s1 b))"
    and 3: "get E fs' b False s1 = (Inr q, s2)" by simp_all
  note r = get_other_identity[OF wf al ga 1 2 3]
  from r show "fst q \<noteq> fst p" by simp
  from r show "dict_get E (heap s2) (instances s2) a = Some p" by simp
  from r show "dict_get E (heap s2) (instances s2) b = Some q" by simp
next
  assume nk: "a \<notin> fst ` set (instances s)"
  from get_keys[OF ga] nk al show "a \<notin> fst ` set (instances s1)" by auto
next
  fix v b fs'
  assume nk: "a \<notin> fst ` set (instances s)"
    and h: "b \<noteq> a \<and> \<not> spec_virtual (heap s1 b) \<and> ko_eq Spec_cmp_key (heap s a) (Some (heap s1 b))"
  from h have 1: "b \<noteq> a" and 2: "\<not> spec_virtual (heap s1 b)"
    and 3: "ko_eq Spec_cmp_key (heap s a) (Some (heap s1 b))" by simp_all
  from get_insulated[OF wf al ga nk 1 2 3]
  show "get E fs' b False (s1\<lparr>heap := (heap s1)(a := v)\<rparr>) = (Inr p, s1\<lparr>heap := (heap s1)(a := v)\<rparr>)" .
qed

lemma ex_get0: "fst (get ex_env ex_fs 0 False ex_db) = Inr (0, ex_pkgA)"
  by (simp add: registry_eval fs_eval ex_defs)

theorem get_one_instance_per_identity_witness:
  "get ex_env ex_fs 1 False (snd (get ex_env ex_fs 0 False ex_db)) =
     (Inr (0, ex_pkgA), snd (get ex_env ex_fs 0 False ex_db)) \<and>
   fst (get ex_env ex_fs 2 False (snd (get ex_env ex_fs 0 False ex_db))) = Inr (1, ex_pkgA) \<and>
   dict_get ex_env (heap (snd (get ex_env ex_fs 2 False (snd (get ex_env ex_fs 0 False ex_db)))))
     (instances (snd (get ex_env ex_fs 2 False (snd (get ex_env ex_fs 0 False ex_db))))) 0 = Some (0, ex_pkgA) \<and>
   dict_get ex_env (heap (snd (get ex_env ex_fs 2 False (snd (get ex_env ex_fs 0 False ex_db)))))
     (instances (snd (get ex_env ex_fs 2 False (snd (get ex_env ex_fs 0 False ex_db))))) 2 = Some (1, ex_pkgA) \<and>
   get ex_env [] 1 False ((snd (get ex_env ex_fs 0 False ex_db))\<lparr>heap := (heap (snd (get ex_env ex_fs 0 False ex_db)))(0 := ex_spec ''A'' ''9.9'')\<rparr>) =
     (Inr (0, ex_pkgA), (snd (get ex_env ex_fs 0 False ex_db))\<lparr>heap := (heap (snd (get ex_env ex_fs 0 False ex_db)))(0 := ex_spec ''A'' ''9.9'')\<rparr>)"
proof -
  let ?s1 = "snd (get ex_env ex_fs 0 False ex_db)"
  have wf: "well_formed ex_db" by (simp add: well_formed_def ex_db_def PackageDB_def)
  have al: "0 < next_addr ex_db" by (simp add: ex_db_def PackageDB_def)
  have ga: "get ex_env ex_fs 0 False ex_db = (Inr (0, ex_pkgA), ?s1)"
    using ex_get0 by (simp add: prod_eq_iff)
  have hp: "heap ?s1 (Suc 0) = ex_spec ''A'' ''1.0''" "heap ?s1 0 = ex_spec ''A'' ''1.0''"
    "heap ?s1 2 = ex_spec ''A'' ''2.0''" "next_addr ?s1 = 6"
    by (simp_all add: registry_eval fs_eval ex_defs)
  have nk: "0 \<notin> fst ` set (instances ex_db)" by (simp add: ex_db_def PackageDB_def)
  have h0: "heap ex_db 0 = ex_spec ''A'' ''1.0''" by (simp add: ex_db_def PackageDB_def ex_heap_def)
  note t = get_one_instance_per_identity[OF wf al ga]
  have 1: "get ex_env ex_fs 1 False ?s1 = (Inr (0, ex_pkgA), ?s1)"
    by (rule t[THEN conjunct1, rule_format, of 1 ex_fs])
       (simp add: hp ko_eq_def ex_spec_def)
  have 3: "fst (get ex_env ex_fs 2 False ?s1) = Inr (1, ex_pkgA)"
    by (simp add: registry_eval fs_eval ex_defs)
  let ?s2 = "snd (get ex_env ex_fs 2 False ?s1)"
  have "2 < next_addr ?s1 \<and> \<not> ko_eq Spec_cmp_key (heap ?s1 0) (Some (heap ?s1 2)) \<and>
        get ex_env ex_fs 2 False ?s1 = (Inr (1, ex_pkgA), ?s2)"
    using 3 by (simp add: hp ko_eq_def ex_spec_def Spec_cmp_key_def prod_eq_iff)
  note 2 = t[THEN conjunct2, THEN conjunct1, rule_format, OF this]
  have 4: "get ex_env [] 1 False (?s1\<lparr>heap := (heap ?s1)(0 := ex_spec ''A'' ''9.9'')\<rparr>) =
     (Inr (0, ex_pkgA), ?s1\<lparr>heap := (heap ?s1)(0 := ex_spec ''A'' ''9.9'')\<rparr>)"
    by (rule t[THEN conjunct2, THEN conjunct2, rule_format, OF nk, THEN conjunct2, rule_format, of 1])
       (simp add: hp h0 ko_eq_def ex_spec_def)
  from 1 2 3 4 show ?thesis by simp
qed

text \<open>
  C5.  \<open>get\<close> on a virtual identity raises \<open>UnknownPackageError\<close> and leaves the whole
  state as it was: nothing is loaded and nothing constructed.  On a non-virtual identity for
  which the constructor is called (the identity is not cached, or \<open>new\<close> is set) and raises
  an \<open>Exception\<close>, \<open>get\<close> raises \<open>FailedConstructorError\<close> with the name and the
  \<open>str\<close> of that exception; no entry for the identity is in the cache afterwards, the cache
  is the one the constructor was called with (after the eviction that \<open>new\<close> asks for, so
  unchanged for a plain \<open>get\<close>), and the registry stays well-formed.
\<close>

theorem get_failed_constructor:
  "(spec_virtual (heap s a) \<longrightarrow>
      get E fs a new s = (Inl (UnknownPackageError (spec_name (heap s a))), s)) \<and>
   (well_formed s \<and> \<not> spec_virtual (heap s a) \<and>
    (new \<or> \<not> dict_contains E (heap s) (instances s) a) \<and>
    get_class_for_package_name E fs (spec_name (heap s a)) s = (Inr cls, s2) \<and>
    cls (heap s a) = Raised reason \<longrightarrow>
      get E fs a new s =
        (Inl (FailedConstructorError (spec_name (heap s a)) reason),
         s2\<lparr>instances := evicted E a new s\<rparr>) \<and>
      \<not> dict_contains E (heap s) (evicted E a new s) a \<and>
      set (evicted E a new s) \<subseteq> set (instances s) \<and>
      (\<not> dict_contains E (heap s) (instances s) a \<longrightarrow> evicted E a new s = instances s) \<and>
      heap s2 = heap s \<and> next_oid s2 = next_oid s \<and>
      well_formed (s2\<lparr>instances := evicted E a new s\<rparr>))"
proof (intro conjI impI)
  assume "spec_virtual (heap s a)"
  then show "get E fs a new s = (Inl (UnknownPackageError (spec_name (heap s a))), s)"
    by (rule get_virtual)
next
  assume h: "well_formed s \<and> \<not> spec_virtual (heap s a) \<and>
    (new \<or> \<not> dict_contains E (heap s) (instances s) a) \<and>
    get_class_for_package_name E fs (spec_name (heap s a)) s = (Inr cls, s2) \<and>
    cls (heap s a) = Raised reason"
  then have wf: "well_formed s" and nv: "\<not> spec_virtual (heap s a)"
    and miss: "new \<or> \<not> dict_contains E (heap s) (instances s) a"
    and gc: "get_class_for_package_name E fs (spec_name (heap s a)) s = (Inr cls, s2)"
    and raised: "cls (heap s a) = Raised reason" by simp_all
  let ?d = "evicted E a new s"
  have none: "dict_get E (heap s) ?d a = None"
  proof (cases new)
    case True
    with evicted_new_None[OF wf] show ?thesis by simp
  next
    case False
    with miss have "\<not> dict_contains E (heap s) (instances s) a" by simp
    then have "dict_get E (heap s) (instances s) a = None"
      by (cases "dict_get E (heap s) (instances s) a") (simp_all add: dict_contains_Some)
    with False show ?thesis by simp
  qed
  from gc have gc': "get_class_for_package_name E fs (spec_name (heap s a)) (s\<lparr>instances := ?d\<rparr>)
                     = (Inr cls, s2\<lparr>instances := ?d\<rparr>)"
    by (simp add: get_class_instances)
  from get_miss[OF nv none gc'] raised
  show "get E fs a new s =
        (Inl (FailedConstructorError (spec_name (heap s a)) reason), s2\<lparr>instances := ?d\<rparr>)"
    by simp
  from none show "\<not> dict_contains E (heap s) ?d a" by (rule dict_contains_None)
  show "set ?d \<subseteq> set (instances s)" by (rule evicted_subset)
  from get_class_frame[OF gc] show "heap s2 = heap s" by simp
  from get_class_frame[OF gc] show "next_oid s2 = next_oid s" by simp
  from get_class_frame[OF gc'] have "well_formed (s2\<lparr>instances := ?d\<rparr>) = well_formed (s\<lparr>instances := ?d\<rparr>)"
    by (intro wf_frame) simp_all
  with wf_evicted[OF wf] show "well_formed (s2\<lparr>instances := ?d\<rparr>)" by simp
next
  assume "\<not> dict_contains E (heap s) (instances s) a"
  then show "evicted E a new s = instances s" by (simp add: evicted_def)
qed

theorem get_failed_constructor_witness:
  "get ex_env ex_fs 3 False ex_db =
     (Inl (FailedConstructorError ''A'' ''unsupported version''),
      ex_db\<lparr>get_class_cache := [(''A'', ex_classA)], load_log := [''/r/A/package.py'']\<rparr>) \<and>
   instances (snd (get ex_env ex_fs 3 False ex_db)) = [] \<and>
   get ex_env ex_fs 4 False ex_db = (Inl (UnknownPackageError ''mpi''), ex_db)"
proof -
  let ?s2 = "ex_db\<lparr>get_class_cache := [(''A'', ex_classA)], load_log := [''/r/A/package.py'']\<rparr>"
  have v: "spec_virtual (heap ex_db 4)" "spec_name (heap ex_db 4) = ''mpi''"
    by (simp_all add: ex_defs)
  have h: "well_formed ex_db \<and> \<not> spec_virtual (heap ex_db 3) \<and>
    (False \<or> \<not> dict_contains ex_env (heap ex_db) (instances ex_db) 3) \<and>
    get_class_for_package_name ex_env ex_fs (spec_name (heap ex_db 3)) ex_db = (Inr ex_classA, ?s2) \<and>
    ex_classA (heap ex_db 3) = Raised ''unsupported version''"
    by (simp add: well_formed_def registry_eval fs_eval ex_defs)
  have n: "spec_name (heap ex_db 3) = ''A''" "evicted ex_env 3 False ex_db = []"
    by (simp_all add: ex_defs)
  note t = get_failed_constructor[of ex_db 3 ex_env ex_fs False ex_classA ?s2 "''unsupported version''"]
  from t[THEN conjunct2, rule_format, OF h, THEN conjunct1]
  have 1: "get ex_env ex_fs 3 False ex_db =
     (Inl (FailedConstructorError ''A'' ''unsupported version''), ?s2)"
    by (simp add: n)
  note t4 = get_failed_constructor[of ex_db 4 ex_env ex_fs False ex_classA ?s2 "''unsupported version''"]
  from t4[THEN conjunct1, rule_format, OF v(1)]
  have 2: "get ex_env ex_fs 4 False ex_db = (Inl (UnknownPackageError ''mpi''), ex_db)"
    by (simp add: v)
  from 1 2 show ?thesis by (simp add: ex_defs)
qed

text \<open>
  C9.  \<open>purge\<close> empties the instance cache and changes no other part of the registry.  A
  class that \<open>get_class_for_package_name\<close> returned before is returned again after
  \<open>purge\<close>, whatever the file system holds by then, and that call changes nothing: the
  file is not loaded again.
\<close>

theorem purge_keeps_classes:
  "instances (purge s) = [] \<and> (purge s)\<lparr>instances := instances s\<rparr> = s \<and>
   (get_class_for_package_name E fs n s = (Inr c, s1) \<longrightarrow>
      get_class_for_package_name E fs' n (purge s1) = (Inr c, purge s1) \<and>
      load_log (purge s1) = load_log s1 \<and> get_class_cache (purge s1) = get_class_cache s1)"
proof (intro conjI impI)
  show "instances (purge s) = []" by (simp add: purge_def)
  show "(purge s)\<lparr>instances := instances s\<rparr> = s" by (simp add: purge_def)
next
  assume g: "get_class_for_package_name E fs n s = (Inr c, s1)"
  from get_class_stores[OF g] have "map_of (get_class_cache (purge s1)) n = Some c"
    by (simp add: purge_def)
  then show "get_class_for_package_name E fs' n (purge s1) = (Inr c, purge s1)"
    by (rule get_class_hit)
  show "load_log (purge s1) = load_log s1" by (simp add: purge_def)
  show "get_class_cache (purge s1) = get_class_cache s1" by (simp add: purge_def)
qed

theorem purge_keeps_classes_witness:
  "get_class_for_package_name ex_env []  ''A''
     (purge (snd (get ex_env ex_fs 0 False ex_db))) =
     (Inr ex_classA, purge (snd (get ex_env ex_fs 0 False ex_db))) \<and>
   load_log (purge (snd (get ex_env ex_fs 0 False ex_db))) = [''/r/A/package.py''] \<and>
   instances (snd (get ex_env ex_fs 0 False ex_db)) = [(5, (0, ex_pkgA))] \<and>
   instances (purge (snd (get ex_env ex_fs 0 False ex_db))) = []"
proof -
  let ?s = "snd (get ex_env ex_fs 0 False ex_db)"
  have s: "?s = ex_db\<lparr>heap := ex_heap(5 := ex_spec ''A'' ''1.0''), next_addr := 6, next_oid := 1,
                       instances := [(5, (0, ex_pkgA))],
                       get_class_cache := [(''A'', ex_classA)], load_log := [''/r/A/package.py'']\<rparr>"
    by (simp add: registry_eval fs_eval ex_defs)
  have g: "get_class_for_package_name ex_env ex_fs ''A'' ?s = (Inr ex_classA, ?s)"
    unfolding s by (simp add: get_class_for_package_name_def memoized_def)
  note t = purge_keeps_classes[of ?s ex_env ex_fs "''A''" ex_classA ?s "[]"]
  from t[THEN conjunct2, THEN conjunct2, rule_format, OF g] t[THEN conjunct1]
  show ?thesis by (simp add: s purge_def)
qed

text \<open>
  C6.  A new registry has no provider index.  In every state of a registry's lifetime at most
  one index has been built, and the index is absent exactly when none has been built.
  \<open>providers_for\<close> on a registry that has an index changes nothing (the index is reused);
  on one that has none it builds it from \<open>all_package_names()\<close>.  Whenever the call ends with
  an index in place and the query on it is empty, the call raises \<open>UnknownPackageError\<close>, the
  error of a missing package; and what it returns otherwise is the non-empty answer of the query.
\<close>

theorem providers_for_lazy_index:
  "provider_index (PackageDB root_dir hp n :: ('a, 'i) state) = None \<and>
   index_builds (PackageDB root_dir hp n :: ('a, 'i) state) = 0 \<and>
   (reachable E s \<longrightarrow> index_builds s \<le> 1 \<and> (provider_index s = None \<longleftrightarrow> index_builds s = 0)) \<and>
   (provider_index s \<noteq> None \<longrightarrow> snd (providers_for E fs v s) = s) \<and>
   (provider_index s = None \<and> all_package_names fs s = (Inr names, s1) \<and>
    ProviderIndex E names = Inr idx \<longrightarrow>
      snd (providers_for E fs v s) = s1\<lparr>provider_index := Some idx, index_builds := Suc (index_builds s)\<rparr>) \<and>
   (providers_for E fs v s = (r, s') \<longrightarrow>
      (\<forall>idx'. provider_index s' = Some idx' \<and> index_providers_for E idx' v = [] \<longrightarrow>
         r = Inl (UnknownPackageError (''No such virtual package: '' @ spec_str E v))) \<and>
      (\<forall>providers. r = Inr providers \<longrightarrow>
         providers \<noteq> [] \<and> (\<exists>idx'. provider_index s' = Some idx' \<and>
                                 providers = index_providers_for E idx' v)))"
proof (intro conjI impI allI)
  show "provider_index (PackageDB root_dir hp n :: ('a, 'i) state) = None"
    by (simp add: PackageDB_def)
  show "index_builds (PackageDB root_dir hp n :: ('a, 'i) state) = 0"
    by (simp add: PackageDB_def)
next
  assume "reachable E s"
  from reachable_index_inv[OF this]
  show "index_builds s \<le> 1" and "(provider_index s = None) = (index_builds s = 0)"
    by (simp_all add: index_inv_def)
next
  assume "provider_index s \<noteq> None"
  then obtain i where "provider_index s = Some i" by auto
  then show "snd (providers_for E fs v s) = s" by (simp add: providers_for_built)
next
  assume h: "provider_index s = None \<and> all_package_names fs s = (Inr names, s1) \<and>
    ProviderIndex E names = Inr idx"
  then have n: "provider_index s = None" and a: "all_package_names fs s = (Inr names, s1)"
    and p: "ProviderIndex E names = Inr idx" by simp_all
  from all_package_names_frame[OF a] have "index_builds s1 = index_builds s" by auto
  with p show "snd (providers_for E fs v s) =
      s1\<lparr>provider_index := Some idx, index_builds := Suc (index_builds s)\<rparr>"
    by (simp add: providers_for_unbuilt[OF n a])
next
  fix idx'
  assume g: "providers_for E fs v s = (r, s')"
    and h: "provider_index s' = Some idx' \<and> index_providers_for E idx' v = []"
  from providers_for_result[OF g] h
  show "r = Inl (UnknownPackageError (''No such virtual package: '' @ spec_str E v))" by simp
next
  fix providers
  assume g: "providers_for E fs v s = (r, s')" and r: "r = Inr providers"
  from providers_for_result[OF g] r
  have *: "providers \<noteq> [] \<and> (\<exists>idx'. provider_index s' = Some idx' \<and>
                                 providers = index_providers_for E idx' v)"
    by (cases "provider_index s'") (auto split: if_splits)
  from * show "providers \<noteq> []" by simp
  from * show "\<exists>idx'. provider_index s' = Some idx' \<and> providers = index_providers_for E idx' v"
    by simp
qed

lemma ex_names: "collect_package_names ex_fs ''/r'' [''B'', ''A''] [] = [''A'', ''B'']"
  by (simp add: fs_eval ex_defs)

lemma ex_listdir: "listdir ex_fs ''/r'' = Inr [''B'', ''A'']"
  by (simp add: listdir_def fs_eval ex_defs List.map_filter_def entry_name_def startswith_def Let_def)

theorem providers_for_lazy_index_witness:
  "providers_for ex_env ex_fs ex_mpi ex_db =
     (Inr [ex_spec ''B'' []],
      ex_db\<lparr>all_package_names_cache := [((), [''A'', ''B''])],
            provider_index := Some [''A'', ''B''], index_builds := 1\<rparr>) \<and>
   providers_for ex_env [] ex_blas
     (ex_db\<lparr>all_package_names_cache := [((), [''A'', ''B''])],
            provider_index := Some [''A'', ''B''], index_builds := 1\<rparr>) =
     (Inl (UnknownPackageError ''No such virtual package: blas''),
      ex_db\<lparr>all_package_names_cache := [((), [''A'', ''B''])],
            provider_index := Some [''A'', ''B''], index_builds := 1\<rparr>) \<and>
   index_builds (snd (providers_for ex_env ex_fs ex_mpi ex_db)) \<le> 1"
proof -
  let ?s1 = "ex_db\<lparr>all_package_names_cache := [((), [''A'', ''B''])]\<rparr>"
  let ?s2 = "ex_db\<lparr>all_package_names_cache := [((), [''A'', ''B''])],
            provider_index := Some [''A'', ''B''], index_builds := 1\<rparr>"
  have a: "all_package_names ex_fs ex_db = (Inr [''A'', ''B''], ?s1)"
    by (simp add: all_package_names_def memoized_def scan_package_names_def ex_listdir ex_names
        ex_db_def PackageDB_def del: collect_package_names.simps)
  have h: "provider_index ex_db = None \<and> all_package_names ex_fs ex_db = (Inr [''A'', ''B''], ?s1) \<and>
    ProviderIndex ex_env [''A'', ''B''] = Inr [''A'', ''B'']"
    using a by (simp add: ex_db_def PackageDB_def ex_env_def)
  note t = providers_for_lazy_index[of _ _ _ ex_env]
  from t[of _ _ _ ex_db ex_fs ex_mpi, THEN conjunct2, THEN conjunct2, THEN conjunct2, THEN conjunct2,
      THEN conjunct1, rule_format, OF h]
  have s: "snd (providers_for ex_env ex_fs ex_mpi ex_db) = ?s2"
    by (simp add: ex_db_def PackageDB_def)
  have n: "provider_index ex_db = None" by (simp add: ex_db_def PackageDB_def)
  have f: "fst (providers_for ex_env ex_fs ex_mpi ex_db) = Inr [ex_spec ''B'' []]"
    unfolding providers_for_unbuilt[OF n a] by (simp add: ex_env_def ex_mpi_def)
  from s f have 1: "providers_for ex_env ex_fs ex_mpi ex_db = (Inr [ex_spec ''B'' []], ?s2)"
    by (simp add: prod_eq_iff)
  have r: "reachable ex_env (snd (providers_for ex_env ex_fs ex_mpi ex_db))"
    by (rule r_providers_for[where s = ex_db and fs = ex_fs and v' = ex_mpi and ?r3.0 = "Inr [ex_spec ''B'' []]"])
       (simp_all add: ex_db_def r_init 1[unfolded ex_db_def])
  from t[of _ _ _ "snd (providers_for ex_env ex_fs ex_mpi ex_db)", THEN conjunct2, THEN conjunct2,
      THEN conjunct1, rule_format, OF r]
  have 3: "index_builds (snd (providers_for ex_env ex_fs ex_mpi ex_db)) \<le> 1" by simp
  have p2: "provider_index ?s2 \<noteq> None" by simp
  from t[of _ _ _ ?s2 "[]" ex_blas, THEN conjunct2, THEN conjunct2,
      THEN conjunct2, THEN conjunct1, rule_format, OF p2]
  have s2: "snd (providers_for ex_env [] ex_blas ?s2) = ?s2" .
  have f2: "fst (providers_for ex_env [] ex_blas ?s2) = Inl (UnknownPackageError ''No such virtual package: blas'')"
  proof -
    have "provider_index ?s2 = Some [''A'', ''B'']" by simp
    from providers_for_built[OF this, of ex_env "[]" ex_blas] show ?thesis
      by (simp add: ex_env_def ex_blas_def)
  qed
  from s2 f2 have 2: "providers_for ex_env [] ex_blas ?s2 =
     (Inl (UnknownPackageError ''No such virtual package: blas''), ?s2)"
    by (simp add: prod_eq_iff)
  from 1 2 3 show ?thesis by simp
qed

section \<open>Package names and the dependency graph\<close>

lemma collect_package_names_sorted:
  "sorted acc \<Longrightarrow> sorted (collect_package_names fs r names acc)"
  by (induction names arbitrary: acc) (simp_all add: Let_def)

lemma collect_package_names_mset:
  "mset (collect_package_names fs r names acc) =
   mset acc + mset (filter (\<lambda>n. isfile fs (join_path (join_path r n) package_file_name)) names)"
  by (induction names arbitrary: acc) (simp_all add: Let_def)

lemma collect_package_names_sort:
  "collect_package_names fs r names [] =
   sort (filter (\<lambda>n. isfile fs (join_path (join_path r n) package_file_name)) names)"
proof -
  have "sorted (collect_package_names fs r names [])"
    by (rule collect_package_names_sorted) simp
  moreover have "mset (collect_package_names fs r names []) =
    mset (filter (\<lambda>n. isfile fs (join_path (join_path r n) package_file_name)) names)"
    by (simp add: collect_package_names_mset)
  ultimately show ?thesis by (simp add: properties_for_sort)
qed

text \<open>
  C4.  On a registry that has not listed its packages yet, \<open>all_package_names\<close> returns the
  entries \<open>n\<close> of \<open>root\<close> for which \<open>root/n/package.py\<close> is a file, sorted, and stores
  that list; whenever it has returned a list, every later call returns the same list and
  changes nothing, whatever the file system holds by then.
\<close>

theorem all_package_names_sorted_memoized:
  "(all_package_names_cache s = [] \<and> listdir fs (root s) = Inr entries \<longrightarrow>
      all_package_names fs s =
        (Inr (sort (filter (\<lambda>n. isfile fs (join_path (join_path (root s) n) package_file_name)) entries)),
         s\<lparr>all_package_names_cache :=
             [((), sort (filter (\<lambda>n. isfile fs (join_path (join_path (root s) n) package_file_name)) entries))]\<rparr>)) \<and>
   (all_package_names fs s = (Inr names, s') \<longrightarrow>
      (\<forall>fs'. all_package_names fs' s' = (Inr names, s')))"
proof (intro conjI impI allI)
  assume "all_package_names_cache s = [] \<and> listdir fs (root s) = Inr entries"
  then show "all_package_names fs s =
        (Inr (sort (filter (\<lambda>n. isfile fs (join_path (join_path (root s) n) package_file_name)) entries)),
         s\<lparr>all_package_names_cache :=
             [((), sort (filter (\<lambda>n. isfile fs (join_path (join_path (root s) n) package_file_name)) entries))]\<rparr>)"
    by (simp add: all_package_names_def memoized_def scan_package_names_def collect_package_names_sort
        del: collect_package_names.simps)
next
  fix fs'
  assume "all_package_names fs s = (Inr names, s')"
  then show "all_package_names fs' s' = (Inr names, s')" by (rule all_package_names_memo)
qed

lemma ex_listdir_names: "listdir ex_fs_names ''/pkgs'' = Inr [''zlib'', ''scratch'', ''boost'']"
  by (simp add: listdir_def fs_eval ex_fs_names_def List.map_filter_def entry_name_def
      startswith_def Let_def)

theorem all_package_names_sorted_memoized_witness:
  "all_package_names ex_fs_names (PackageDB ''/pkgs'' ex_heap 5 :: (string, string list) state) =
     (Inr [''boost'', ''zlib''],
      (PackageDB ''/pkgs'' ex_heap 5)\<lparr>all_package_names_cache := [((), [''boost'', ''zlib''])]\<rparr>) \<and>
   all_package_names ex_fs_later
     ((PackageDB ''/pkgs'' ex_heap 5 :: (string, string list) state)\<lparr>all_package_names_cache := [((), [''boost'', ''zlib''])]\<rparr>) =
     (Inr [''boost'', ''zlib''],
      (PackageDB ''/pkgs'' ex_heap 5)\<lparr>all_package_names_cache := [((), [''boost'', ''zlib''])]\<rparr>)"
proof -
  let ?s = "PackageDB ''/pkgs'' ex_heap 5 :: (string, string list) state"
  let ?s' = "?s\<lparr>all_package_names_cache := [((), [''boost'', ''zlib''])]\<rparr>"
  have h: "all_package_names_cache ?s = [] \<and> listdir ex_fs_names (root ?s) = Inr [''zlib'', ''scratch'', ''boost'']"
    by (simp add: PackageDB_def ex_listdir_names)
  have f: "sort (filter (\<lambda>n. isfile ex_fs_names (join_path (join_path (root ?s) n) package_file_name))
             [''zlib'', ''scratch'', ''boost'']) = [''boost'', ''zlib'']"
    by (simp add: PackageDB_def fs_eval ex_fs_names_def)
  note t = all_package_names_sorted_memoized[of ?s ex_fs_names _ "[''boost'', ''zlib'']" ?s']
  from t[THEN conjunct1, rule_format, OF h]
  have 1: "all_package_names ex_fs_names ?s = (Inr [''boost'', ''zlib''], ?s')"
    unfolding f .
  from t[THEN conjunct2, rule_format, OF 1]
  have 2: "all_package_names ex_fs_later ?s' = (Inr [''boost'', ''zlib''], ?s')" .
  from 1 2 show ?thesis by simp
qed

end
